theory Spec2Isabelle
  imports Complex_Main "HOL-Library.Sublist" "HOL-Library.AList"
begin

section \<open>Shared types\<close>

text \<open>
  Exceptions of the pipeline as values.  \<open>ValueError\<close> carries the message of the
  source; the three \<open>RuntimeError\<close>s raised by the retry loops of \<open>nodes.py\<close> are kept
  apart by constructor, each with the data its message is formatted from (the text of the
  last underlying exception and, for audio, the clip index).  \<open>ModelCallError\<close> is an
  exception of a language-model call that no handler catches, \<open>AssertionError\<close> a
  failed \<open>assert\<close> with its message, \<open>UnboundLocalError\<close> the read of a local variable
  that was never assigned.
\<close>

datatype error =
    ValueError string
  | OutlineRuntimeError string
  | TranscriptRuntimeError
  | AudioRuntimeError nat string
  | ModelCallError string
  | AssertionError string
  | UnboundLocalError string

section \<open>speed.py\<close>

text \<open>
  \<open>SpeedConfig.speeds\<close> is a \<open>Dict[str, float]\<close>.  The floats are only stored and
  returned, never computed with, so they are modelled by the reals they denote.
\<close>

record SpeedConfig =
  speeds :: "string \<rightharpoonup> real"

datatype speed_log = SpeedNotFoundWarning string

text \<open>The default factory of the field: slow 0.9, normal 1.0, fast 1.1.\<close>

definition default_speeds :: "string \<rightharpoonup> real" where
  "default_speeds = [''slow'' \<mapsto> 0.9, ''normal'' \<mapsto> 1.0, ''fast'' \<mapsto> 1.1]"

definition load_speed_config :: SpeedConfig where
  "load_speed_config = \<lparr>speeds = default_speeds\<rparr>"

text \<open>
  \<open>get_speed_name_value\<close>: the result is the returned float together with what was
  logged (a warning naming the missing speed, or nothing).
\<close>

definition get_speed_name_value :: "SpeedConfig \<Rightarrow> string \<Rightarrow> real \<times> speed_log list" where
  "get_speed_name_value self name =
     (case speeds self name of
        None \<Rightarrow> (1.0, [SpeedNotFoundWarning name])
      | Some v \<Rightarrow> (v, []))"

section \<open>speakers.py\<close>

record Speaker =
  name :: string
  voice_id :: string
  backstory :: string
  personality :: string
  custom_voice :: "string option"
  custom_voice_filename :: "string option"

text \<open>Python truthiness of an \<open>Optional[str]\<close>: neither \<open>None\<close> nor the empty string.\<close>

definition truthy :: "'a list option \<Rightarrow> bool" where
  "truthy v = (case v of None \<Rightarrow> False | Some s \<Rightarrow> s \<noteq> [])"

text \<open>The identifier appended to \<open>voice_ids\<close> for one speaker in the loop of the validator.\<close>

definition voice_key :: "Speaker \<Rightarrow> string" where
  "voice_key speaker =
     (if voice_id speaker = ''custom'' \<and> truthy (custom_voice speaker)
      then ''custom:'' @ the (custom_voice speaker)
      else voice_id speaker)"

definition validate_speakers :: "Speaker list \<Rightarrow> error + Speaker list" where
  "validate_speakers v =
     (if length v < 1 \<or> length v > 4
      then Inl (ValueError ''Must have between 1 and 4 speakers'')
      else let names = map name v in
        if length names \<noteq> card (set names)
        then Inl (ValueError ''Speaker names must be unique'')
        else let voice_ids = map voice_key v in
          if length voice_ids \<noteq> card (set voice_ids)
          then Inl (ValueError ''Voice IDs must be unique (or custom_voice paths must be unique)'')
          else Inr v)"

text \<open>
  The invariant of a speaker profile in the words of the specification: one to four
  speakers, names pairwise distinct, and two speakers share a voice id only when it is
  \<open>custom\<close> and their custom-voice references differ.
\<close>

definition profile_invariant :: "Speaker list \<Rightarrow> bool" where
  "profile_invariant v \<longleftrightarrow>
     1 \<le> length v \<and> length v \<le> 4 \<and>
     (\<forall>i<length v. \<forall>j<length v. i \<noteq> j \<longrightarrow> name (v ! i) \<noteq> name (v ! j)) \<and>
     (\<forall>i<length v. \<forall>j<length v. i \<noteq> j \<longrightarrow> voice_id (v ! i) = voice_id (v ! j) \<longrightarrow>
        voice_id (v ! i) = ''custom'' \<and> custom_voice (v ! i) \<noteq> custom_voice (v ! j))"

text \<open>Two profiles for evaluation: two cloned voices, and one preset voice used twice.\<close>

definition cloned_pair :: "Speaker list" where
  "cloned_pair =
     [\<lparr>name = ''Ann'', voice_id = ''custom'', backstory = ''host'', personality = ''calm'',
        custom_voice = Some ''ann.wav'', custom_voice_filename = None\<rparr>,
      \<lparr>name = ''Bob'', voice_id = ''custom'', backstory = ''guest'', personality = ''keen'',
        custom_voice = Some ''bob.wav'', custom_voice_filename = None\<rparr>]"

definition shared_preset :: "Speaker list" where
  "shared_preset =
     [\<lparr>name = ''Ann'', voice_id = ''alloy'', backstory = ''host'', personality = ''calm'',
        custom_voice = None, custom_voice_filename = None\<rparr>,
      \<lparr>name = ''Bob'', voice_id = ''alloy'', backstory = ''guest'', personality = ''keen'',
        custom_voice = None, custom_voice_filename = None\<rparr>]"

section \<open>nodes.py: content\_transform\_node\<close>

text \<open>
  Python strings whose length in code points matters are lists of code points.
  \<open>is_space\<close> is the set of characters that \<open>str.strip()\<close> removes when called without
  an argument (the Unicode white space of CPython).
\<close>

type_synonym ustr = "nat list"

definition is_space :: "nat \<Rightarrow> bool" where
  "is_space c \<longleftrightarrow>
     (0x09 \<le> c \<and> c \<le> 0x0D) \<or> (0x1C \<le> c \<and> c \<le> 0x20) \<or> c = 0x85 \<or> c = 0xA0 \<or>
     c = 0x1680 \<or> (0x2000 \<le> c \<and> c \<le> 0x200A) \<or> c = 0x2028 \<or> c = 0x2029 \<or>
     c = 0x202F \<or> c = 0x205F \<or> c = 0x3000"

definition strip :: "ustr \<Rightarrow> ustr" where
  "strip s = rev (dropWhile is_space (rev (dropWhile is_space s)))"

text \<open>Python's \<open>sub in s\<close> on strings: \<open>sub\<close> occurs as a contiguous piece of \<open>s\<close>.\<close>

fun contains :: "'a list \<Rightarrow> 'a list \<Rightarrow> bool" where
  "contains sub [] = (sub = [])"
| "contains sub (c # cs) = (prefix sub (c # cs) \<or> contains sub cs)"

text \<open>
  The two-character literal tested in the judge's reply (U+9700 U+8981, "needed") and the
  negative reply that the judge prompt asks for (U+4E0D U+9700 U+8981, "not needed").
\<close>

definition needed :: ustr where
  "needed = [0x9700, 0x8981]"

definition not_needed :: ustr where
  "not_needed = [0x4E0D, 0x9700, 0x8981]"

record AIMessage =
  content :: ustr

text \<open>
  The three prompt templates, each with the values substituted into it: the summary prompt
  (briefing, content), the judge prompt (content) and the question-answering prompt
  (content).
\<close>

datatype prompt =
    summary_prompt ustr ustr
  | judge_prompt ustr
  | qa_prompt ustr

text \<open>
  The language model is an oracle: the number of calls made so far and the prompt give
  either the text of the exception that \<open>ainvoke\<close> raises or the response object.
\<close>

type_synonym language_model = "nat \<Rightarrow> prompt \<Rightarrow> string + AIMessage"

text \<open>
  An entry of the content is a string or, after processing, the response object that
  replaced it; entries of a list that are not strings are of the second kind.
\<close>

datatype item = Str ustr | Response AIMessage

datatype content_value = Single item | Items "item list"

text \<open>
  The decision for one string, which the source writes out twice (for a string content and
  for each string entry of a list content).  \<open>calls\<close> is the log of prompts sent so far;
  the result is the extended log with the exception or the processed entry.
\<close>

definition transform_str ::
  "language_model \<Rightarrow> ustr \<Rightarrow> prompt list \<Rightarrow> ustr \<Rightarrow> prompt list \<times> (error + item)" where
  "transform_str qa_model briefing calls txt =
     (if length (strip txt) > 5000 then
        (case qa_model (length calls) (summary_prompt briefing txt) of
           Inl e \<Rightarrow> (calls @ [summary_prompt briefing txt], Inl (ModelCallError e))
         | Inr summary_response \<Rightarrow>
             (calls @ [summary_prompt briefing txt], Inr (Response summary_response)))
      else if length (strip txt) \<ge> 500 then (calls, Inr (Str txt))
      else
        (case qa_model (length calls) (judge_prompt txt) of
           Inl e \<Rightarrow> (calls @ [judge_prompt txt], Inl (ModelCallError e))
         | Inr judge_response \<Rightarrow>
             if contains needed (content judge_response) then
               (case qa_model (Suc (length calls)) (qa_prompt txt) of
                  Inl e \<Rightarrow> (calls @ [judge_prompt txt, qa_prompt txt], Inl (ModelCallError e))
                | Inr qa_response \<Rightarrow>
                    (calls @ [judge_prompt txt, qa_prompt txt], Inr (Response qa_response)))
             else (calls @ [judge_prompt txt], Inr (Str txt))))"

text \<open>The loop over a list content, with \<open>processed_items\<close> as accumulator.\<close>

fun transform_items ::
  "language_model \<Rightarrow> ustr \<Rightarrow> prompt list \<Rightarrow> item list \<Rightarrow> item list \<Rightarrow>
     prompt list \<times> (error + item list)" where
  "transform_items qa_model briefing calls [] processed_items = (calls, Inr processed_items)"
| "transform_items qa_model briefing calls (Str txt # rest) processed_items =
     (case transform_str qa_model briefing calls txt of
        (calls', Inl e) \<Rightarrow> (calls', Inl e)
      | (calls', Inr r) \<Rightarrow> transform_items qa_model briefing calls' rest (processed_items @ [r]))"
| "transform_items qa_model briefing calls (Response m # rest) processed_items =
     transform_items qa_model briefing calls rest (processed_items @ [Response m])"

definition content_transform_node ::
  "language_model \<Rightarrow> ustr \<Rightarrow> content_value \<Rightarrow> prompt list \<times> (error + content_value)" where
  "content_transform_node qa_model briefing c =
     (case c of
        Single (Str txt) \<Rightarrow>
          (case transform_str qa_model briefing [] txt of
             (calls, Inl e) \<Rightarrow> (calls, Inl e)
           | (calls, Inr r) \<Rightarrow> (calls, Inr (Single r)))
      | Single (Response m) \<Rightarrow> ([], Inr (Single (Response m)))
      | Items xs \<Rightarrow>
          (case transform_items qa_model briefing [] xs [] of
             (calls, Inl e) \<Rightarrow> (calls, Inl e)
           | (calls, Inr rs) \<Rightarrow> (calls, Inr (Items rs))))"

text \<open>Oracles for evaluation: a model that always replies with one fixed text.\<close>

definition replies :: "ustr \<Rightarrow> language_model" where
  "replies t = (\<lambda>n p. Inr \<lparr>content = t\<rparr>)"

section \<open>emotions.py\<close>

record Emotion =
  emotion_name :: string
  emotion_text :: "string list"
  emotion_category :: "string list"
  emotion_description :: string

text \<open>Python's \<open>sep.join(parts)\<close>.\<close>

fun join :: "'a list \<Rightarrow> 'a list list \<Rightarrow> 'a list" where
  "join sep [] = []"
| "join sep [x] = x"
| "join sep (x # y # ys) = x @ sep @ join sep (y # ys)"

definition get_voice_instructions :: "Emotion \<Rightarrow> string" where
  "get_voice_instructions self = join [CHR 0x0A] (emotion_text self)"

record EmotionConfig =
  emotions :: "string \<rightharpoonup> Emotion"
  categories :: "string list"

definition get_emotion :: "EmotionConfig \<Rightarrow> string \<Rightarrow> error + Emotion" where
  "get_emotion self nm =
     (case emotions self nm of
        None \<Rightarrow> Inl (ValueError (''Emotion '' @ nm @ '' not found''))
      | Some e \<Rightarrow> Inr e)"

section \<open>nodes.py: generate\_single\_audio\_clip\<close>

text \<open>
  A dialogue line as the nodes read it: speaker, text, and the optional emotion and speed
  tags.
\<close>

record Dialogue =
  speaker :: string
  dialogue :: string
  emotion :: "string option"
  speed :: "string option"

text \<open>
  A \<open>Path\<close> is the list of its components; \<open>p / c\<close> with a relative one-component \<open>c\<close>
  appends it, and \<open>str\<close> joins the components with a slash.
\<close>

type_synonym path = "string list"

definition path_join :: "path \<Rightarrow> string \<Rightarrow> path" where
  "path_join p c = p @ [c]"

definition path_str :: "path \<Rightarrow> string" where
  "path_str p = join ''/'' p"

text \<open>The format \<open>{index:04d}\<close>: decimal digits, padded with zeros on the left to width 4.\<close>

definition digit_char :: "nat \<Rightarrow> char" where
  "digit_char d = ''0123456789'' ! d"

fun decimal :: "nat \<Rightarrow> string" where
  "decimal n = (if n < 10 then [digit_char n] else decimal (n div 10) @ [digit_char (n mod 10)])"

declare decimal.simps [simp del]

definition fmt_04d :: "nat \<Rightarrow> string" where
  "fmt_04d n = replicate (4 - length (decimal n)) CHR ''0'' @ decimal n"

text \<open>
  The keyword arguments of the synthesis call are a dictionary from option name to value,
  kept as an association list with one entry for each key.  One call of
  \<open>agenerate_speech\<close> is described by its arguments.
\<close>

type_synonym kwargs = "(string \<times> string) list"

record tts_request =
  req_text :: string
  req_voice :: string
  req_output_file :: path
  req_kwargs :: kwargs

text \<open>
  The synthesis backend is an oracle: for a request and the number of the attempt it gives
  \<open>None\<close> when the call returns (the clip is written) and the text of the exception
  otherwise.  The file system is read through \<open>fs\<close>: the base64 encoding of a file's
  bytes if the path exists.  Creating the clips directory, constructing the backend client
  and reading an existing file are taken to succeed; they lie outside the retry loop.
\<close>

type_synonym tts_backend = "tts_request \<Rightarrow> nat \<Rightarrow> string option"

type_synonym file_system = "string \<rightharpoonup> string"

text \<open>
  What one line's coroutine does, as events tagged with the index of the line: it starts,
  calls the backend (attempt number and request), sleeps between attempts, and ends by
  returning the clip path or by raising.  \<open>BatchPause\<close> is the scheduler's own sleep
  between two batches.
\<close>

datatype audio_event =
    Started nat
  | Speech nat nat tts_request
  | Pause nat nat
  | Finished nat
  | Aborted nat error
  | BatchPause nat

text \<open>The dictionary that \<open>generate_all_audio_node\<close> hands to each line's coroutine.\<close>

record dialogue_info =
  info_dialogue :: Dialogue
  info_index :: nat
  info_output_dir :: path
  info_tts_provider :: string
  info_tts_model :: string
  info_voices :: "string \<rightharpoonup> string"
  info_custom_voices :: "string \<rightharpoonup> string"
  info_dialect :: "string option"

definition clip_path :: "dialogue_info \<Rightarrow> path" where
  "clip_path info =
     (let clips_dir = path_join (info_output_dir info) ''clips'';
          filename = fmt_04d (info_index info) @ ''.mp3''
      in path_join clips_dir filename)"

text \<open>
  The keyword arguments, filled in the order of the source: instructions from the emotion
  tag, the reference audio of a custom voice, the dialect.  The emotion and speed
  configurations (entries of the state, possibly \<open>None\<close>) are parameters of the function
  and are not read.
\<close>

definition tts_kwargs ::
  "file_system \<Rightarrow> dialogue_info \<Rightarrow> EmotionConfig option \<Rightarrow> SpeedConfig option \<Rightarrow> kwargs" where
  "tts_kwargs fs info emotions_config speed_config =
     (let d = info_dialogue info;
          k0 = [];
          k1 = (if truthy (emotion d) then AList.update ''instructions'' (the (emotion d)) k0
                else k0);
          speaker_name = speaker d;
          k2 = (if truthy (info_custom_voices info speaker_name)
                then (let custom_voice_path = the (info_custom_voices info speaker_name) in
                      case fs custom_voice_path of
                        Some b64_data \<Rightarrow> AList.update ''reference_audio'' b64_data k1
                      | None \<Rightarrow> AList.update ''reference_audio'' custom_voice_path k1)
                else k1);
          k3 = (if truthy (info_dialect info)
                then AList.update ''dialect'' (the (info_dialect info)) k2
                else k2)
      in k3)"

definition voice_of :: "dialogue_info \<Rightarrow> string" where
  "voice_of info =
     (case info_voices info (speaker (info_dialogue info)) of
        None \<Rightarrow> ''default''
      | Some v \<Rightarrow> v)"

definition clip_request ::
  "file_system \<Rightarrow> dialogue_info \<Rightarrow> EmotionConfig option \<Rightarrow> SpeedConfig option \<Rightarrow>
     tts_request" where
  "clip_request fs info emotions_config speed_config =
     \<lparr>req_text = dialogue (info_dialogue info),
      req_voice = voice_of info,
      req_output_file = clip_path info,
      req_kwargs = tts_kwargs fs info emotions_config speed_config\<rparr>"

text \<open>
  The retry loop \<open>for attempt in range(5)\<close>: a call that returns leaves the loop; a failed
  call raises on attempt 4 and sleeps 3 seconds otherwise.  The result is the exception
  raised, if any.
\<close>

fun synthesis_attempts ::
  "tts_backend \<Rightarrow> nat \<Rightarrow> tts_request \<Rightarrow> nat list \<Rightarrow> audio_event list \<times> error option" where
  "synthesis_attempts backend index req [] = ([], None)"
| "synthesis_attempts backend index req (attempt # rest) =
     (case backend req attempt of
        None \<Rightarrow> ([Speech index attempt req], None)
      | Some e \<Rightarrow>
          if attempt = 4
          then ([Speech index attempt req], Some (AudioRuntimeError index e))
          else (let (ev, r) = synthesis_attempts backend index req rest
                in (Speech index attempt req # Pause index 3 # ev, r)))"

definition generate_single_audio_clip ::
  "tts_backend \<Rightarrow> file_system \<Rightarrow> dialogue_info \<Rightarrow> EmotionConfig option \<Rightarrow>
     SpeedConfig option \<Rightarrow> audio_event list \<times> (error + path)" where
  "generate_single_audio_clip backend fs info emotions_config speed_config =
     (let index = info_index info;
          req = clip_request fs info emotions_config speed_config;
          (ev, r) = synthesis_attempts backend index req [0..<5]
      in case r of
           None \<Rightarrow> (Started index # ev @ [Finished index], Inr (clip_path info))
         | Some e \<Rightarrow> (Started index # ev @ [Aborted index e], Inl e))"

text \<open>Values for evaluation: an emotion table, a tagged line and the record of its coroutine.\<close>

definition cheerful :: Emotion where
  "cheerful = \<lparr>emotion_name = ''Happy'', emotion_text = [''Bright tone'', ''Fast pace''],
     emotion_category = [''positive''], emotion_description = ''joyful and upbeat''\<rparr>"

definition emotions_table :: EmotionConfig where
  "emotions_table = \<lparr>emotions = [''Happy'' \<mapsto> cheerful], categories = [''positive'']\<rparr>"

definition happy_line :: Dialogue where
  "happy_line = \<lparr>speaker = ''Ann'', dialogue = ''Welcome back'', emotion = Some ''Happy'',
     speed = None\<rparr>"

definition plain_line :: Dialogue where
  "plain_line = \<lparr>speaker = ''Bob'', dialogue = ''Thanks'', emotion = None, speed = None\<rparr>"

definition line_info :: "Dialogue \<Rightarrow> nat \<Rightarrow> string option \<Rightarrow> dialogue_info" where
  "line_info d i dia =
     \<lparr>info_dialogue = d, info_index = i, info_output_dir = [''out''],
      info_tts_provider = ''kokoro'', info_tts_model = ''Kokoro-82M'',
      info_voices = [''Ann'' \<mapsto> ''nova'', ''Bob'' \<mapsto> ''onyx''],
      info_custom_voices = Map.empty, info_dialect = dia\<rparr>"

text \<open>A backend whose calls fail on the attempts below \<open>k\<close> and return from \<open>k\<close> on.\<close>

definition fails_before :: "nat \<Rightarrow> tts_backend" where
  "fails_before k = (\<lambda>req attempt. if attempt < k then Some ''timeout'' else None)"

text \<open>
  Notions used to state properties of the event lists: whether an event is a backend call,
  and the events of \<open>k\<close> failed attempts, each followed by its pause of 3 seconds.
\<close>

fun is_speech :: "audio_event \<Rightarrow> bool" where
  "is_speech (Speech i a req) = True"
| "is_speech _ = False"

definition failed_attempts :: "nat \<Rightarrow> tts_request \<Rightarrow> nat \<Rightarrow> audio_event list" where
  "failed_attempts i req k = concat (map (\<lambda>a. [Speech i a req, Pause i 3]) [0..<k])"

text \<open>Reading a string of decimal digits as a number, for stating what a file name denotes.\<close>

definition digit_value :: "char \<Rightarrow> nat" where
  "digit_value c = of_char c - 48"

definition read_decimal :: "string \<Rightarrow> nat" where
  "read_decimal s = foldl (\<lambda>a c. 10 * a + digit_value c) 0 s"

section \<open>llm/dialect\_utils.py\<close>






section \<open>llm/tts.py: KokoroTTSWrapper\<close>















section \<open>speakers.py: SpeakerProfile\<close>

record SpeakerProfile =
  tts_provider :: string
  tts_model :: string
  speakers :: "Speaker list"

definition get_speaker_names :: "SpeakerProfile \<Rightarrow> string list" where
  "get_speaker_names self = map name (speakers self)"

text \<open>The two dictionary comprehensions: a later speaker of the same name overwrites.\<close>

definition get_voice_mapping :: "SpeakerProfile \<Rightarrow> (string \<rightharpoonup> string)" where
  "get_voice_mapping self =
     fold (\<lambda>sp m. m(name sp \<mapsto> voice_id sp)) (speakers self) Map.empty"

definition get_custom_voice_mapping :: "SpeakerProfile \<Rightarrow> (string \<rightharpoonup> string)" where
  "get_custom_voice_mapping self =
     fold (\<lambda>sp m. if truthy (custom_voice sp) then m(name sp \<mapsto> the (custom_voice sp)) else m)
       (speakers self) Map.empty"

section \<open>state.py and nodes.py: generate\_all\_audio\_node\<close>

text \<open>A segment of the outline, with the two attributes that the nodes read.\<close>

record Segment =
  segment_name :: string
  size :: string

text \<open>The entries of the pipeline state that the nodes modelled here read.\<close>

record PodcastState =
  state_outline :: "Segment list option"
  state_transcript :: "Dialogue list"
  state_output_dir :: path
  state_speaker_profile :: "SpeakerProfile option"
  state_emotions_config :: "EmotionConfig option"
  state_speed_config :: "SpeedConfig option"
  state_language :: "string option"
  state_dialect :: "string option"

text \<open>
  Python's \<open>range(start, stop, step)\<close> as the list of its elements; a zero step raises.
\<close>

definition py_range :: "int \<Rightarrow> int \<Rightarrow> int \<Rightarrow> error + int list" where
  "py_range start stop step =
     (if step = 0 then Inl (ValueError ''range() arg 3 must not be zero'')
      else if step > 0 then
        Inr (map (\<lambda>k. start + int k * step)
               [0..<(if start < stop then nat ((stop - start - 1) div step + 1) else 0)])
      else
        Inr (map (\<lambda>k. start + int k * step)
               [0..<(if stop < start then nat ((start - stop - 1) div (- step) + 1) else 0)]))"

text \<open>
  \<open>asyncio.gather\<close> runs the coroutines of a batch concurrently: the events of the batch
  are an interleaving of the events of its lines.  If a line raises, the exception reaches
  the node and ends its run there: the events are cut after the first \<open>Aborted\<close> and its
  error is the outcome.  Otherwise the outcome is the list of the results in the order of
  the tasks.
\<close>

fun interleavings :: "'a list list \<Rightarrow> 'a list set" where
  "interleavings [] = {[]}"
| "interleavings (t # ts) = (\<Union>s \<in> interleavings ts. shuffles t s)"

fun until_abort :: "audio_event list \<Rightarrow> audio_event list \<times> error option" where
  "until_abort [] = ([], None)"
| "until_abort (Aborted i err # es) = ([Aborted i err], Some err)"
| "until_abort (e # es) = (let (p, r) = until_abort es in (e # p, r))"

fun sequence :: "('e + 'a) list \<Rightarrow> 'e + 'a list" where
  "sequence [] = Inr []"
| "sequence (Inl e # rs) = Inl e"
| "sequence (Inr x # rs) = (case sequence rs of Inl e \<Rightarrow> Inl e | Inr xs \<Rightarrow> Inr (x # xs))"

definition gather ::
  "(audio_event list \<times> (error + 'a)) list \<Rightarrow> (audio_event list \<times> (error + 'a list)) set" where
  "gather tasks =
     (\<lambda>tr. case until_abort tr of
              (p, Some err) \<Rightarrow> (p, Inl err)
            | (p, None) \<Rightarrow> (p, sequence (map snd tasks)))
       ` interleavings (map fst tasks)"

text \<open>The indices of the batch that starts at \<open>batch_start\<close>.\<close>

definition batch_indices :: "nat \<Rightarrow> nat \<Rightarrow> nat \<Rightarrow> nat list" where
  "batch_indices total_segments batch_size batch_start =
     (let batch_end = min (batch_start + batch_size) total_segments
      in [batch_start..<batch_end])"

text \<open>
  The loop over the batch starts, with \<open>all_clip_paths\<close> as accumulator.  \<open>task i\<close> is the
  coroutine of line \<open>i\<close>.  A batch that raises ends the run; after a batch that is not the
  last the node sleeps one second.  The result is the set of possible runs: the events and
  the outcome of each.
\<close>

fun audio_batches ::
  "(nat \<Rightarrow> audio_event list \<times> (error + path)) \<Rightarrow> nat \<Rightarrow> nat \<Rightarrow> nat list \<Rightarrow> path list \<Rightarrow>
     (audio_event list \<times> (error + path list)) set" where
  "audio_batches task total_segments batch_size [] all_clip_paths = {([], Inr all_clip_paths)}"
| "audio_batches task total_segments batch_size (batch_start # rest) all_clip_paths =
     (\<Union>(tr, r) \<in> gather (map task (batch_indices total_segments batch_size batch_start)).
        case r of
          Inl e \<Rightarrow> {(tr, Inl e)}
        | Inr batch_clip_paths \<Rightarrow>
            (\<lambda>(tr', r').
                (tr @ (if min (batch_start + batch_size) total_segments < total_segments
                       then [BatchPause 1] else []) @ tr', r'))
              ` audio_batches task total_segments batch_size rest
                  (all_clip_paths @ batch_clip_paths))"

text \<open>The batch size: the environment variable \<open>TTS_BATCH_SIZE\<close> as an integer, 5 if unset.\<close>

definition tts_batch_size :: "int option \<Rightarrow> int" where
  "tts_batch_size env = (case env of None \<Rightarrow> 5 | Some b \<Rightarrow> b)"

definition line_info_of :: "PodcastState \<Rightarrow> SpeakerProfile \<Rightarrow> nat \<Rightarrow> dialogue_info" where
  "line_info_of state speaker_profile i =
     \<lparr>info_dialogue = state_transcript state ! i,
      info_index = i,
      info_output_dir = state_output_dir state,
      info_tts_provider = tts_provider speaker_profile,
      info_tts_model = tts_model speaker_profile,
      info_voices = get_voice_mapping speaker_profile,
      info_custom_voices = get_custom_voice_mapping speaker_profile,
      info_dialect = state_dialect state\<rparr>"

definition line_request ::
  "file_system \<Rightarrow> PodcastState \<Rightarrow> SpeakerProfile \<Rightarrow> nat \<Rightarrow> tts_request" where
  "line_request fs state speaker_profile i =
     clip_request fs (line_info_of state speaker_profile i)
       (state_emotions_config state) (state_speed_config state)"

definition line_task ::
  "tts_backend \<Rightarrow> file_system \<Rightarrow> PodcastState \<Rightarrow> SpeakerProfile \<Rightarrow> nat \<Rightarrow>
     audio_event list \<times> (error + path)" where
  "line_task backend fs state speaker_profile i =
     generate_single_audio_clip backend fs (line_info_of state speaker_profile i)
       (state_emotions_config state) (state_speed_config state)"

text \<open>
  The node.  The loop body runs only for a positive step, where the batch starts are not
  negative; they and the batch size are then natural numbers.
\<close>

definition generate_all_audio_node ::
  "tts_backend \<Rightarrow> file_system \<Rightarrow> int option \<Rightarrow> PodcastState \<Rightarrow>
     (audio_event list \<times> (error + path list)) set" where
  "generate_all_audio_node backend fs env state =
     (let total_segments = length (state_transcript state);
          batch_size = tts_batch_size env
      in case state_speaker_profile state of
           None \<Rightarrow> {([], Inl (AssertionError ''speaker_profile must be provided''))}
         | Some speaker_profile \<Rightarrow>
             (case py_range 0 (int total_segments) batch_size of
                Inl e \<Rightarrow> {([], Inl e)}
              | Inr starts \<Rightarrow>
                  audio_batches (line_task backend fs state speaker_profile) total_segments
                    (nat batch_size) (map nat starts) []))"

text \<open>
  The batches of a run, for stating properties: the index lists of the batch starts of the
  loop.
\<close>

definition batches :: "nat \<Rightarrow> int \<Rightarrow> nat list list" where
  "batches total_segments batch_size =
     (case py_range 0 (int total_segments) batch_size of
        Inl e \<Rightarrow> []
      | Inr starts \<Rightarrow> map (batch_indices total_segments (nat batch_size) \<circ> nat) starts)"

text \<open>
  One particular run, for showing that runs exist: within each batch the lines run one after
  the other.
\<close>

definition sequential_events ::
  "(nat \<Rightarrow> audio_event list \<times> (error + path)) \<Rightarrow> nat \<Rightarrow> nat \<Rightarrow> nat list \<Rightarrow> audio_event list" where
  "sequential_events task total_segments batch_size starts =
     concat (map (\<lambda>batch_start.
         concat (map (fst \<circ> task) (batch_indices total_segments batch_size batch_start)) @
         (if min (batch_start + batch_size) total_segments < total_segments
          then [BatchPause 1] else []))
       starts)"


text \<open>Values for evaluation: a profile of two preset voices and states over it.\<close>

definition two_voices :: SpeakerProfile where
  "two_voices =
     \<lparr>tts_provider = ''kokoro'', tts_model = ''Kokoro-82M'',
      speakers =
        [\<lparr>name = ''Ann'', voice_id = ''nova'', backstory = ''host'', personality = ''calm'',
           custom_voice = None, custom_voice_filename = None\<rparr>,
         \<lparr>name = ''Bob'', voice_id = ''onyx'', backstory = ''guest'', personality = ''keen'',
           custom_voice = None, custom_voice_filename = None\<rparr>]\<rparr>"

definition state_of :: "Dialogue list \<Rightarrow> PodcastState" where
  "state_of ds =
     \<lparr>state_outline = None, state_transcript = ds, state_output_dir = [''out''],
      state_speaker_profile = Some two_voices, state_emotions_config = Some emotions_table,
      state_speed_config = Some load_speed_config, state_language = Some ''English'',
      state_dialect = None\<rparr>"

definition three_lines :: PodcastState where
  "three_lines = state_of [happy_line, plain_line, happy_line]"

section \<open>nodes.py: generate\_outline\_node and generate\_transcript\_node\<close>

text \<open>
  What the two nodes do towards the language model: a call for the outline (attempt), a call
  for a segment (index of the segment, attempt), a sleep of some seconds.
\<close>

datatype llm_event =
    OutlineCall nat
  | TranscriptCall nat nat
  | SleepSeconds nat

text \<open>
  One attempt is the body of the \<open>try\<close> statement: the model call, \<open>clean_thinking_content\<close> and the
  parser, each of which may raise.  The model is an oracle from the number of the attempt
  to the text of the exception or the raw content; \<open>clean_thinking_content\<close> and the
  outline parser are defined in \<open>core.py\<close>, which is not among the sources, and are
  parameters.
\<close>

definition outline_attempt ::
  "(nat \<Rightarrow> string + 'r) \<Rightarrow> ('r \<Rightarrow> 'r) \<Rightarrow> ('r \<Rightarrow> string + Segment list) \<Rightarrow> nat \<Rightarrow>
     string + Segment list" where
  "outline_attempt outline_model clean_thinking_content outline_parser attempt =
     (case outline_model attempt of
        Inl e \<Rightarrow> Inl e
      | Inr outline_preview \<Rightarrow> outline_parser (clean_thinking_content outline_preview))"

text \<open>
  The loop \<open>for attempt in range(3)\<close> of the outline node.  A loop that ended without
  \<open>break\<close> would leave \<open>outline_result\<close> unbound.
\<close>

fun outline_attempts ::
  "(nat \<Rightarrow> string + Segment list) \<Rightarrow> nat list \<Rightarrow> llm_event list \<times> (error + Segment list)" where
  "outline_attempts body [] = ([], Inl (UnboundLocalError ''outline_result''))"
| "outline_attempts body (attempt # rest) =
     (case body attempt of
        Inr outline_result \<Rightarrow> ([OutlineCall attempt], Inr outline_result)
      | Inl e \<Rightarrow>
          if attempt = 2 then ([OutlineCall attempt], Inl (OutlineRuntimeError e))
          else (let (ev, r) = outline_attempts body rest
                in (OutlineCall attempt # SleepSeconds 1 # ev, r)))"

definition generate_outline_node ::
  "(nat \<Rightarrow> string + 'r) \<Rightarrow> ('r \<Rightarrow> 'r) \<Rightarrow> ('r \<Rightarrow> string + Segment list) \<Rightarrow>
     llm_event list \<times> (error + Segment list)" where
  "generate_outline_node outline_model clean_thinking_content outline_parser =
     outline_attempts (outline_attempt outline_model clean_thinking_content outline_parser) [0..<3]"

text \<open>
  Modelled from the spec: \<open>create_validated_transcript_parser\<close> of
  \<open>podcast_creator/core.py\<close>, which is not among the sources.  The specification says that
  the parser parses the model's text into a list of dialogue records and rejects the whole
  batch if the speaker, emotion or speed tag of any line falls outside the configured
  vocabularies.  The parsing of the text itself is the parameter \<open>parse\<close>.
\<close>

definition valid_dialogue :: "string set \<Rightarrow> string set \<Rightarrow> string set \<Rightarrow> Dialogue \<Rightarrow> bool" where
  "valid_dialogue speaker_names emotions_names speed_names d \<longleftrightarrow>
     speaker d \<in> speaker_names \<and>
     (case emotion d of None \<Rightarrow> True | Some e \<Rightarrow> e \<in> emotions_names) \<and>
     (case speed d of None \<Rightarrow> True | Some s \<Rightarrow> s \<in> speed_names)"

definition validated_transcript_parser ::
  "('r \<Rightarrow> string + Dialogue list) \<Rightarrow> string set \<Rightarrow> string set \<Rightarrow> string set \<Rightarrow> 'r \<Rightarrow>
     string + Dialogue list" where
  "validated_transcript_parser parse speaker_names emotions_names speed_names raw =
     (case parse raw of
        Inl e \<Rightarrow> Inl e
      | Inr ds \<Rightarrow>
          if list_all (valid_dialogue speaker_names emotions_names speed_names) ds
          then Inr ds else Inl ''validation error'')"

text \<open>The data of a segment's prompt that depend on the segment and its position.\<close>

record segment_data =
  data_segment :: Segment
  is_final :: bool
  is_first :: bool
  is_middle :: bool
  turns :: nat

definition segment_data_of :: "Segment list \<Rightarrow> nat \<Rightarrow> Segment \<Rightarrow> segment_data" where
  "segment_data_of segments i segment =
     \<lparr>data_segment = segment,
      is_final = (int i = int (length segments) - 1),
      is_first = (i = 0),
      is_middle = (\<not> (i = 0) \<and> \<not> (int i = int (length segments) - 1)),
      turns = (if size segment = ''short'' then 2 else if size segment = ''medium'' then 5 else 8)\<rparr>"

text \<open>
  One attempt for a segment.  The model is an oracle from the index of the segment, the
  attempt and the prompt data.
\<close>

definition transcript_attempt ::
  "(nat \<Rightarrow> nat \<Rightarrow> segment_data \<Rightarrow> string + 'r) \<Rightarrow> ('r \<Rightarrow> 'r) \<Rightarrow> ('r \<Rightarrow> string + Dialogue list) \<Rightarrow>
     nat \<Rightarrow> segment_data \<Rightarrow> nat \<Rightarrow> string + Dialogue list" where
  "transcript_attempt transcript_model clean_thinking_content parser i data attempt =
     (case transcript_model i attempt data of
        Inl e \<Rightarrow> Inl e
      | Inr transcript_preview \<Rightarrow> parser (clean_thinking_content transcript_preview))"

text \<open>
  The inner loop \<open>for attempt in range(3)\<close> for segment \<open>i\<close>; the result is the list that
  \<open>transcript.extend\<close> appends, or the error raised.
\<close>

fun transcript_attempts ::
  "(nat \<Rightarrow> string + Dialogue list) \<Rightarrow> nat \<Rightarrow> nat list \<Rightarrow> llm_event list \<times> (error + Dialogue list)" where
  "transcript_attempts body i [] = ([], Inr [])"
| "transcript_attempts body i (attempt # rest) =
     (case body attempt of
        Inr result \<Rightarrow> ([TranscriptCall i attempt], Inr result)
      | Inl e \<Rightarrow>
          if attempt = 2 then ([TranscriptCall i attempt], Inl TranscriptRuntimeError)
          else (let (ev, r) = transcript_attempts body i rest
                in (TranscriptCall i attempt # SleepSeconds 1 # ev, r)))"

text \<open>
  The outer loop \<open>for i, segment in enumerate(outline.segments)\<close>: \<open>body i data\<close> is the
  attempt function of segment \<open>i\<close>, \<open>segments\<close> the whole outline, \<open>todo\<close> the segments from
  \<open>i\<close> on, \<open>transcript\<close> the turns appended so far.
\<close>

fun transcript_segments ::
  "(nat \<Rightarrow> segment_data \<Rightarrow> nat \<Rightarrow> string + Dialogue list) \<Rightarrow> Segment list \<Rightarrow> nat \<Rightarrow>
     Segment list \<Rightarrow> Dialogue list \<Rightarrow> llm_event list \<times> (error + Dialogue list)" where
  "transcript_segments body segments i [] transcript = ([], Inr transcript)"
| "transcript_segments body segments i (segment # todo) transcript =
     (case transcript_attempts (body i (segment_data_of segments i segment)) i [0..<3] of
        (ev, Inl e) \<Rightarrow> (ev, Inl e)
      | (ev, Inr result) \<Rightarrow>
          (let (ev', r) = transcript_segments body segments (Suc i) todo (transcript @ result)
           in (ev @ ev', r)))"

text \<open>
  The node: the assertions on the state, the vocabularies of the validated parser, the loop.
\<close>

definition segment_body ::
  "(nat \<Rightarrow> nat \<Rightarrow> segment_data \<Rightarrow> string + 'r) \<Rightarrow> ('r \<Rightarrow> 'r) \<Rightarrow> ('r \<Rightarrow> string + Dialogue list) \<Rightarrow>
     SpeakerProfile \<Rightarrow> EmotionConfig \<Rightarrow> SpeedConfig \<Rightarrow>
     nat \<Rightarrow> segment_data \<Rightarrow> nat \<Rightarrow> string + Dialogue list" where
  "segment_body transcript_model clean_thinking_content parse speaker_profile emotions_config
       speed_config =
     (let validated_parser =
            validated_transcript_parser parse (set (get_speaker_names speaker_profile))
              (dom (emotions emotions_config)) (dom (speeds speed_config))
      in (\<lambda>i data. transcript_attempt transcript_model clean_thinking_content
            validated_parser i data))"

definition generate_transcript_node ::
  "(nat \<Rightarrow> nat \<Rightarrow> segment_data \<Rightarrow> string + 'r) \<Rightarrow> ('r \<Rightarrow> 'r) \<Rightarrow> ('r \<Rightarrow> string + Dialogue list) \<Rightarrow>
     PodcastState \<Rightarrow> llm_event list \<times> (error + Dialogue list)" where
  "generate_transcript_node transcript_model clean_thinking_content parse state =
     (case state_outline state of
        None \<Rightarrow> ([], Inl (AssertionError ''outline must be provided''))
      | Some outline \<Rightarrow>
     (case state_speaker_profile state of
        None \<Rightarrow> ([], Inl (AssertionError ''speaker_profile must be provided''))
      | Some speaker_profile \<Rightarrow>
     (case state_emotions_config state of
        None \<Rightarrow> ([], Inl (AssertionError ''emotions_config must be provided''))
      | Some emotions_config \<Rightarrow>
     (case state_speed_config state of
        None \<Rightarrow> ([], Inl (AssertionError ''speed_config must be provided''))
      | Some speed_config \<Rightarrow>
     (case state_language state of
        None \<Rightarrow> ([], Inl (AssertionError ''language must be provided''))
      | Some language \<Rightarrow>
          transcript_segments
            (segment_body transcript_model clean_thinking_content parse speaker_profile
               emotions_config speed_config)
            outline 0 outline [])))))"

text \<open>
  For stating properties: the run of the inner loop for segment \<open>j\<close> of an outline, and
  the events of a retry loop whose attempts below \<open>k\<close> fail and which ends with attempt
  \<open>k\<close>, each failed attempt followed by the sleep of one second.
\<close>

definition segment_block ::
  "(nat \<Rightarrow> segment_data \<Rightarrow> nat \<Rightarrow> string + Dialogue list) \<Rightarrow> Segment list \<Rightarrow> nat \<Rightarrow>
     llm_event list \<times> (error + Dialogue list)" where
  "segment_block body segments j =
     transcript_attempts (body j (segment_data_of segments j (segments ! j))) j [0..<3]"

definition retry_events :: "(nat \<Rightarrow> llm_event) \<Rightarrow> nat \<Rightarrow> llm_event list" where
  "retry_events call k = concat (map (\<lambda>a. [call a, SleepSeconds 1]) [0..<k]) @ [call k]"

text \<open>
  Values for evaluation.  An outline of two segments; an outline model that fails twice and
  then answers; a transcript model whose first answer for segment 0 names a speaker that is
  not in the profile and whose later answers are valid.
\<close>

definition two_segments :: "Segment list" where
  "two_segments = [\<lparr>segment_name = ''Intro'', size = ''short''\<rparr>,
                   \<lparr>segment_name = ''Main'', size = ''long''\<rparr>]"

definition slow_outline_model :: "nat \<Rightarrow> string + string" where
  "slow_outline_model attempt = (if attempt < 2 then Inl ''timeout'' else Inr ''outline'')"

definition scripted_outline_parser :: "string \<Rightarrow> string + Segment list" where
  "scripted_outline_parser raw = (if raw = ''outline'' then Inr two_segments else Inl ''no json'')"

definition stranger_line :: Dialogue where
  "stranger_line = \<lparr>speaker = ''Zed'', dialogue = ''Hello'', emotion = None, speed = None\<rparr>"

definition scripted_model :: "nat \<Rightarrow> nat \<Rightarrow> segment_data \<Rightarrow> string + string" where
  "scripted_model i attempt data =
     (if i = 0 \<and> attempt = 0 then Inr ''stranger''
      else if i = 0 then Inr ''first'' else Inr ''second'')"

definition scripted_parse :: "string \<Rightarrow> string + Dialogue list" where
  "scripted_parse raw =
     (if raw = ''first'' then Inr [happy_line]
      else if raw = ''second'' then Inr [plain_line]
      else if raw = ''stranger'' then Inr [happy_line, stranger_line]
      else Inl ''no json'')"

definition outlined_state :: PodcastState where
  "outlined_state = (state_of [])\<lparr>state_outline := Some two_segments\<rparr>"

definition dead_outline_model :: "nat \<Rightarrow> string + string" where
  "dead_outline_model attempt = Inl ''timeout''"

definition stubborn_model :: "nat \<Rightarrow> nat \<Rightarrow> segment_data \<Rightarrow> string + string" where
  "stubborn_model i attempt data = (if i = 0 then Inr ''first'' else Inr ''stranger'')"

section \<open>Properties of speed.py\<close>

text \<open>
  C10.  A speed name that is not a key of the mapping yields the neutral multiplier 1.0
  and one logged warning, never an error; a configured name yields its configured
  multiplier and logs nothing.
\<close>

theorem get_speed_name_value_total:
  "(speeds cfg nm = None \<longrightarrow>
      get_speed_name_value cfg nm = (1, [SpeedNotFoundWarning nm])) \<and>
   (\<forall>v. speeds cfg nm = Some v \<longrightarrow> get_speed_name_value cfg nm = (v, []))"
  by (simp add: get_speed_name_value_def)

theorem get_speed_name_value_total_witness:
  "speeds load_speed_config ''turbo'' = None \<and>
   get_speed_name_value load_speed_config ''turbo'' = (1, [SpeedNotFoundWarning ''turbo'']) \<and>
   speeds load_speed_config ''fast'' = Some 1.1 \<and>
   get_speed_name_value load_speed_config ''fast'' = (1.1, [])"
  using get_speed_name_value_total [of load_speed_config "''turbo''"]
    get_speed_name_value_total [of load_speed_config "''fast''"]
  by (simp add: load_speed_config_def default_speeds_def)

section \<open>Properties of speakers.py\<close>

lemma validate_speakers_Inr:
  assumes "validate_speakers v = Inr r"
  shows "r = v" "1 \<le> length v" "length v \<le> 4"
    "distinct (map name v)" "distinct (map voice_key v)"
proof -
  from assms have len: "\<not> (length v < 1 \<or> length v > 4)"
    by (auto simp: validate_speakers_def split: if_splits)
  from assms len have n: "length (map name v) = card (set (map name v))"
    by (auto simp: validate_speakers_def Let_def split: if_splits)
  from assms len n have k: "length (map voice_key v) = card (set (map voice_key v))"
    by (auto simp: validate_speakers_def Let_def split: if_splits)
  from assms len n k show "r = v"
    by (auto simp: validate_speakers_def Let_def split: if_splits)
  from len show "1 \<le> length v" "length v \<le> 4" by (auto simp: Suc_le_eq)
  from n show "distinct (map name v)" by (metis card_distinct)
  from k show "distinct (map voice_key v)" by (metis card_distinct)
qed

lemma validate_speakers_cases:
  "(\<exists>msg. validate_speakers v = Inl (ValueError msg)) \<or> validate_speakers v = Inr v"
  by (simp add: validate_speakers_def Let_def)

lemma voice_key_clash:
  assumes "voice_id a = voice_id b"
    and "voice_id a = ''custom'' \<longrightarrow> custom_voice a = custom_voice b"
  shows "voice_key a = voice_key b"
  using assms by (auto simp: voice_key_def)

lemma validate_speakers_invariant:
  assumes "validate_speakers v = Inr r"
  shows "profile_invariant v"
proof -
  note ok = validate_speakers_Inr [OF assms]
  have names: "name (v ! i) \<noteq> name (v ! j)"
    if "i < length v" "j < length v" "i \<noteq> j" for i j
  proof -
    from that ok(4) have "map name v ! i \<noteq> map name v ! j"
      by (simp add: nth_eq_iff_index_eq del: nth_map)
    with that show ?thesis by simp
  qed
  have voices: "voice_id (v ! i) = ''custom'' \<and> custom_voice (v ! i) \<noteq> custom_voice (v ! j)"
    if "i < length v" "j < length v" "i \<noteq> j" "voice_id (v ! i) = voice_id (v ! j)" for i j
  proof -
    from that ok(5) have "map voice_key v ! i \<noteq> map voice_key v ! j"
      by (simp add: nth_eq_iff_index_eq del: nth_map)
    with that have "voice_key (v ! i) \<noteq> voice_key (v ! j)" by simp
    with that(4) voice_key_clash [of "v ! i" "v ! j"] show ?thesis by blast
  qed
  from ok(2,3) names voices show ?thesis
    unfolding profile_invariant_def by blast
qed

text \<open>
  C9.  A profile that the validator accepts is returned as it is and satisfies the
  invariant (one to four speakers, distinct names, voice ids distinct apart from
  \<open>custom\<close> with distinct custom-voice references); a profile that violates the
  invariant is rejected with a \<open>ValueError\<close>.
\<close>

theorem validate_speakers_sound:
  "(validate_speakers v = Inr r \<longrightarrow> r = v \<and> profile_invariant v) \<and>
   (\<not> profile_invariant v \<longrightarrow> (\<exists>msg. validate_speakers v = Inl (ValueError msg)))"
  using validate_speakers_invariant [of v] validate_speakers_Inr(1) [of v]
    validate_speakers_cases [of v]
  by metis

theorem validate_speakers_sound_witness:
  "validate_speakers cloned_pair = Inr cloned_pair \<and> profile_invariant cloned_pair \<and>
   \<not> profile_invariant shared_preset \<and>
   validate_speakers shared_preset =
     Inl (ValueError ''Voice IDs must be unique (or custom_voice paths must be unique)'')"
proof -
  have a: "validate_speakers cloned_pair = Inr cloned_pair"
    by (simp add: validate_speakers_def cloned_pair_def voice_key_def truthy_def Let_def)
  have b: "\<not> profile_invariant shared_preset"
  proof
    assume "profile_invariant shared_preset"
    then have "\<forall>i<length shared_preset. \<forall>j<length shared_preset. i \<noteq> j \<longrightarrow>
        voice_id (shared_preset ! i) = voice_id (shared_preset ! j) \<longrightarrow>
        voice_id (shared_preset ! i) = ''custom'' \<and>
        custom_voice (shared_preset ! i) \<noteq> custom_voice (shared_preset ! j)"
      by (simp add: profile_invariant_def)
    from this [rule_format, of 0 1] show False
      by (simp add: shared_preset_def)
  qed
  have c: "validate_speakers shared_preset =
     Inl (ValueError ''Voice IDs must be unique (or custom_voice paths must be unique)'')"
    by (simp add: validate_speakers_def shared_preset_def voice_key_def truthy_def Let_def)
  from a b c validate_speakers_sound [of cloned_pair cloned_pair]
    validate_speakers_sound [of shared_preset]
  show ?thesis by simp
qed

section \<open>Properties of content\_transform\_node\<close>

lemma strip_replicate:
  "\<not> is_space c \<Longrightarrow> strip (replicate n c) = replicate n c"
  by (simp add: strip_def)

lemma strip_spaces:
  "is_space c \<Longrightarrow> strip (replicate n c) = []"
  by (simp add: strip_def)

lemma is_space_32: "is_space 32"
  by (simp add: is_space_def)

lemma not_is_space_97: "\<not> is_space 97"
  by (simp add: is_space_def)

lemma contains_needed_simps:
  "contains needed needed" "contains needed not_needed" "\<not> contains needed [110, 111]"
  "\<not> contains not_needed needed"
  by (simp_all add: needed_def not_needed_def)

text \<open>
  C2 as stated fails: an entry of 500 blanks has length 500, which is neither above 5000
  nor below 500, yet the code does not pass it through without a model call; it sends the
  judge prompt and the question-answering prompt and replaces the entry.
\<close>

theorem transform_str_blank_counterexample:
  "length (replicate 500 (32::nat)) \<ge> 500 \<and> \<not> length (replicate 500 (32::nat)) > 5000 \<and>
   transform_str (replies needed) [] [] (replicate 500 32) =
     ([judge_prompt (replicate 500 32), qa_prompt (replicate 500 32)],
      Inr (Response \<lparr>content = needed\<rparr>))"
  by (simp add: transform_str_def strip_spaces is_space_32 replies_def contains_needed_simps)

text \<open>
  C2, amended.  The thresholds are compared with the length of the entry after stripping
  leading and trailing white space.  Above 5000: one summary call, whose response replaces
  the entry.  From 500 to 5000: no call, entry unchanged.  Below 500: one judge call; a
  reply without the marker text leaves the entry unchanged with no further call; an
  affirmative reply (the marker, not the negative phrase) is followed by one
  question-answering call whose response replaces the entry.
\<close>

theorem transform_str_policy:
  "(5000 < length (strip txt) \<longrightarrow>
      (\<forall>r. qa_model (length calls) (summary_prompt briefing txt) = Inr r \<longrightarrow>
         transform_str qa_model briefing calls txt =
           (calls @ [summary_prompt briefing txt], Inr (Response r)))) \<and>
   (500 \<le> length (strip txt) \<and> length (strip txt) \<le> 5000 \<longrightarrow>
      transform_str qa_model briefing calls txt = (calls, Inr (Str txt))) \<and>
   (length (strip txt) < 500 \<longrightarrow>
      (\<forall>j. qa_model (length calls) (judge_prompt txt) = Inr j \<longrightarrow>
         (\<not> contains needed (content j) \<longrightarrow>
            transform_str qa_model briefing calls txt =
              (calls @ [judge_prompt txt], Inr (Str txt))) \<and>
         (contains needed (content j) \<and> \<not> contains not_needed (content j) \<longrightarrow>
            (\<forall>a. qa_model (Suc (length calls)) (qa_prompt txt) = Inr a \<longrightarrow>
               transform_str qa_model briefing calls txt =
                 (calls @ [judge_prompt txt, qa_prompt txt], Inr (Response a))))))"
  by (simp add: transform_str_def)

theorem transform_str_policy_witness:
  "5000 < length (strip (replicate 5001 97)) \<and>
   transform_str (replies [111, 107]) [104, 105] [] (replicate 5001 97) =
     ([summary_prompt [104, 105] (replicate 5001 97)], Inr (Response \<lparr>content = [111, 107]\<rparr>)) \<and>
   500 \<le> length (strip (replicate 500 97)) \<and> length (strip (replicate 500 97)) \<le> 5000 \<and>
   transform_str (replies needed) [104, 105] [] (replicate 500 97) =
     ([], Inr (Str (replicate 500 97))) \<and>
   length (strip [97, 63]) < 500 \<and> \<not> contains needed (content \<lparr>content = [110, 111]\<rparr>) \<and>
   transform_str (replies [110, 111]) [104, 105] [] [97, 63] =
     ([judge_prompt [97, 63]], Inr (Str [97, 63])) \<and>
   contains needed (content \<lparr>content = needed\<rparr>) \<and>
   \<not> contains not_needed (content \<lparr>content = needed\<rparr>) \<and>
   transform_str (replies needed) [104, 105] [] [97, 63] =
     ([judge_prompt [97, 63], qa_prompt [97, 63]], Inr (Response \<lparr>content = needed\<rparr>))"
proof -
  have s1: "strip (replicate 5001 97) = replicate 5001 97"
    and s2: "strip (replicate 500 97) = replicate 500 97"
    by (simp_all add: strip_replicate not_is_space_97)
  have s3: "strip [97, 63] = [97, 63]"
    by (simp add: strip_def is_space_def)
  show ?thesis
    using transform_str_policy [of "replicate 5001 97" "replies [111, 107]" "[]" "[104, 105]"]
      transform_str_policy [of "replicate 500 97" "replies needed" "[]" "[104, 105]"]
      transform_str_policy [of "[97, 63]" "replies [110, 111]" "[]" "[104, 105]"]
      transform_str_policy [of "[97, 63]" "replies needed" "[]" "[104, 105]"]
    by (simp add: s1 s2 s3 replies_def needed_def not_needed_def)
qed

text \<open>
  The negative reply that the judge prompt asks for contains the marker txt, so the test
  \<open>contains needed\<close> holds for it as well and the entry is replaced all the same.
\<close>

lemma transform_str_negative_reply:
  "transform_str (replies not_needed) [] [] [97, 63] =
     ([judge_prompt [97, 63], qa_prompt [97, 63]], Inr (Response \<lparr>content = not_needed\<rparr>))"
  by (simp add: transform_str_def strip_def is_space_def replies_def contains_needed_simps)

section \<open>Properties of generate\_single\_audio\_clip\<close>

lemma synthesis_attempts_count:
  "length (filter is_speech (fst (synthesis_attempts backend i req xs))) \<le> length xs"
  by (induction xs) (auto split: option.splits prod.splits)

lemma synthesis_attempts_success_from:
  assumes "m \<le> k" "k < 5" "backend req k = None" "\<forall>a. m \<le> a \<and> a < k \<longrightarrow> backend req a \<noteq> None"
  shows "synthesis_attempts backend i req [m..<5] =
     (concat (map (\<lambda>a. [Speech i a req, Pause i 3]) [m..<k]) @ [Speech i k req], None)"
  using assms
proof (induction "k - m" arbitrary: m)
  case 0
  then have "m = k" by simp
  with 0 show ?case by (simp add: upt_conv_Cons)
next
  case (Suc d)
  then have lt: "m < k" and m5: "m < 5" and m4: "m \<noteq> 4" by auto
  from Suc.prems lt obtain e where e: "backend req m = Some e" by auto
  have ih: "synthesis_attempts backend i req [Suc m..<5] =
     (concat (map (\<lambda>a. [Speech i a req, Pause i 3]) [Suc m..<k]) @ [Speech i k req], None)"
    using Suc.hyps(2) Suc.prems lt by (intro Suc.hyps(1)) auto
  from e m4 ih lt m5 show ?case
    by (simp add: upt_conv_Cons [of m])
qed

lemma synthesis_attempts_exhausted_from:
  assumes "m \<le> 4" "\<forall>a. m \<le> a \<and> a < 5 \<longrightarrow> backend req a \<noteq> None"
  shows "synthesis_attempts backend i req [m..<5] =
     (concat (map (\<lambda>a. [Speech i a req, Pause i 3]) [m..<4]) @ [Speech i 4 req],
      Some (AudioRuntimeError i (the (backend req 4))))"
  using assms
proof (induction "4 - m" arbitrary: m)
  case 0
  then have m: "m = 4" by simp
  from 0 m obtain e where "backend req 4 = Some e" by auto
  with m show ?case by (simp add: upt_conv_Cons)
next
  case (Suc d)
  then have lt: "m < 4" and m5: "m < 5" and m4: "m \<noteq> 4" by auto
  from Suc.prems lt obtain e where e: "backend req m = Some e" by auto
  have ih: "synthesis_attempts backend i req [Suc m..<5] =
     (concat (map (\<lambda>a. [Speech i a req, Pause i 3]) [Suc m..<4]) @ [Speech i 4 req],
      Some (AudioRuntimeError i (the (backend req 4))))"
    using Suc.hyps(2) Suc.prems lt by (intro Suc.hyps(1)) auto
  from e m4 ih lt m5 show ?case
    by (simp add: upt_conv_Cons [of m])
qed

section \<open>Properties of the keyword arguments and of the Kokoro wrapper\<close>

lemma tts_kwargs_instructions:
  "map_of (tts_kwargs fs info ec sc) ''instructions'' =
     (if truthy (emotion (info_dialogue info)) then emotion (info_dialogue info) else None)"
  by (auto simp: tts_kwargs_def Let_def truthy_def update_conv split: option.splits)


text \<open>
  C6 fails on the code.  For a line tagged \<open>Happy\<close>, with an emotion table that describes
  \<open>Happy\<close> by a description and by instruction texts, the \<open>instructions\<close> option of the
  synthesis call is the tag \<open>Happy\<close> itself: neither the description nor the joined
  instruction texts of the configured emotion.  A line without a tag gets no
  \<open>instructions\<close> option.
\<close>

theorem instructions_are_the_emotion_tag:
  "map_of (req_kwargs (clip_request Map.empty (line_info happy_line 0 None) (Some emotions_table)
       (Some load_speed_config))) ''instructions'' = Some ''Happy'' \<and>
   get_emotion emotions_table ''Happy'' = Inr cheerful \<and>
   emotion_description cheerful = ''joyful and upbeat'' \<and>
   get_voice_instructions cheerful = ''Bright tone'' @ [CHR 0x0A] @ ''Fast pace'' \<and>
   map_of (req_kwargs (clip_request Map.empty (line_info plain_line 1 None) (Some emotions_table)
       (Some load_speed_config))) ''instructions'' = None"
  by (simp add: clip_request_def tts_kwargs_instructions line_info_def happy_line_def
      plain_line_def truthy_def get_emotion_def emotions_table_def cheerful_def
      get_voice_instructions_def)






section \<open>Properties of generate\_all\_audio\_node\<close>

subsection \<open>Interleavings, cut at the first abort, gather\<close>

lemma append_in_shuffles: "xs @ ys \<in> shuffles xs ys"
  by (induction xs) (auto intro: Cons_in_shuffles_leftI)


lemma concat_in_interleavings: "concat ts \<in> interleavings ts"
proof (induction ts)
  case Nil
  show ?case by simp
next
  case (Cons t ts)
  have "t @ concat ts \<in> shuffles t (concat ts)" by (rule append_in_shuffles)
  with Cons show ?case by auto
qed

lemma until_abort_prefix: "prefix (fst (until_abort tr)) tr"
  by (induction tr rule: until_abort.induct) (auto split: prod.splits)

lemma until_abort_None: "snd (until_abort tr) = None \<Longrightarrow> fst (until_abort tr) = tr"
  by (induction tr rule: until_abort.induct) (auto split: prod.splits)

lemma until_abort_no_abort: "\<forall>i e. Aborted i e \<notin> set tr \<Longrightarrow> until_abort tr = (tr, None)"
  by (induction tr rule: until_abort.induct) (auto split: prod.splits)

lemma sequence_Inr: "sequence rs = Inr xs \<Longrightarrow> rs = map Inr xs"
  by (induction rs arbitrary: xs rule: sequence.induct) (auto split: sum.splits)

lemma sequence_map_Inr: "sequence (map Inr xs) = Inr xs"
  by (induction xs) auto

lemma gather_cases:
  assumes "(t, r) \<in> gather tasks"
  obtains (failed) tr e where "tr \<in> interleavings (map fst tasks)" "prefix t tr" "r = Inl e"
  | (finished) ps where "t \<in> interleavings (map fst tasks)" "r = Inr ps" "map snd tasks = map Inr ps"
proof -
  from assms obtain tr where tr: "tr \<in> interleavings (map fst tasks)"
    and eq: "(t, r) = (case until_abort tr of
              (p, Some err) \<Rightarrow> (p, Inl err)
            | (p, None) \<Rightarrow> (p, sequence (map snd tasks)))"
    unfolding gather_def by auto
  obtain p a where ua: "until_abort tr = (p, a)" by (cases "until_abort tr")
  have pre: "prefix p tr" using until_abort_prefix [of tr] ua by simp
  show thesis
  proof (cases a)
    case (Some err)
    with eq ua have "t = p" "r = Inl err" by simp_all
    with tr pre show thesis by (intro failed [of tr err]) simp_all
  next
    case None
    with ua until_abort_None [of tr] have "p = tr" by simp
    with eq ua None have t: "t = tr" and r: "r = sequence (map snd tasks)" by simp_all
    show thesis
    proof (cases r)
      case (Inl e)
      with t tr show thesis by (intro failed [of tr e]) simp_all
    next
      case (Inr ps)
      with r sequence_Inr [of "map snd tasks" ps] t tr show thesis
        by (intro finished [of ps]) simp_all
    qed
  qed
qed



lemma gather_sequential:
  assumes "\<forall>task \<in> set tasks. \<forall>i e. Aborted i e \<notin> set (fst task)"
    and "map snd tasks = map Inr ps"
  shows "(concat (map fst tasks), Inr ps) \<in> gather tasks"
proof -
  have "\<forall>i e. Aborted i e \<notin> set (concat (map fst tasks))"
    using assms(1) by auto
  then have "until_abort (concat (map fst tasks)) = (concat (map fst tasks), None)"
    by (rule until_abort_no_abort)
  with concat_in_interleavings [of "map fst tasks"] assms(2) show ?thesis
    unfolding gather_def by (force simp: sequence_map_Inr image_iff)
qed

subsection \<open>One line\<close>

lemma synthesis_attempts_events:
  "e \<in> set (fst (synthesis_attempts backend i req xs)) \<Longrightarrow>
     (\<exists>a. e = Speech i a req) \<or> (\<exists>s. e = Pause i s)"
  by (induction xs) (auto split: option.splits prod.splits if_splits)


lemma clip_result_Inr:
  assumes "snd (generate_single_audio_clip backend fs info ec sc) = Inr p"
  shows "p = clip_path info"
    and "Finished (info_index info) \<in> set (fst (generate_single_audio_clip backend fs info ec sc))"
    and "\<forall>i e. Aborted i e \<notin> set (fst (generate_single_audio_clip backend fs info ec sc))"
proof -
  obtain ev r where a: "synthesis_attempts backend (info_index info)
      (clip_request fs info ec sc) [0..<5] = (ev, r)"
    by (cases "synthesis_attempts backend (info_index info) (clip_request fs info ec sc) [0..<5]")
  from assms a have r: "r = None"
    by (auto simp: generate_single_audio_clip_def Let_def split: option.splits)
  from assms a r show "p = clip_path info"
    by (simp add: generate_single_audio_clip_def Let_def)
  from a r show "Finished (info_index info) \<in> set (fst (generate_single_audio_clip backend fs info ec sc))"
    by (simp add: generate_single_audio_clip_def Let_def)
  have "\<forall>i e. Aborted i e \<notin> set ev"
    using synthesis_attempts_events [of _ backend "info_index info" "clip_request fs info ec sc" "[0..<5]"]
      a by auto
  with a r show "\<forall>i e. Aborted i e \<notin> set (fst (generate_single_audio_clip backend fs info ec sc))"
    by (simp add: generate_single_audio_clip_def Let_def)
qed

subsection \<open>The loop over the batches\<close>

lemma audio_batches_step:
  assumes "(tr, res) \<in> audio_batches task tot bs (s # rest) acc"
  obtains (raised) e where "(tr, Inl e) \<in> gather (map task (batch_indices tot bs s))"
      "res = Inl e"
  | (continued) t ps tr' where "(t, Inr ps) \<in> gather (map task (batch_indices tot bs s))"
      "(tr', res) \<in> audio_batches task tot bs rest (acc @ ps)"
      "tr = t @ (if min (s + bs) tot < tot then [BatchPause 1] else []) @ tr'"
proof -
  from assms obtain t r where g: "(t, r) \<in> gather (map task (batch_indices tot bs s))"
    and m: "(tr, res) \<in> (case r of
          Inl e \<Rightarrow> {(t, Inl e)}
        | Inr batch_clip_paths \<Rightarrow>
            (\<lambda>(tr', r').
                (t @ (if min (s + bs) tot < tot then [BatchPause 1] else []) @ tr', r'))
              ` audio_batches task tot bs rest (acc @ batch_clip_paths))"
    by auto
  show thesis
  proof (cases r)
    case (Inl e)
    with g m show thesis by (intro raised [of e]) simp_all
  next
    case (Inr ps)
    with m obtain tr' where "(tr', res) \<in> audio_batches task tot bs rest (acc @ ps)"
      "tr = t @ (if min (s + bs) tot < tot then [BatchPause 1] else []) @ tr'"
      by auto
    with g Inr show thesis by (intro continued [of t ps tr']) simp_all
  qed
qed

lemma gather_finished_results:
  assumes "(t, Inr ps) \<in> gather (map task xs)"
    and "\<forall>i p. snd (task i) = Inr p \<longrightarrow> p = f i"
  shows "ps = map f xs"
  using assms(1)
proof (cases rule: gather_cases)
  case (failed tr e)
  then show ?thesis by simp
next
  case (finished qs)
  then have eq: "map (snd \<circ> task) xs = map Inr ps" by simp
  then have len: "length ps = length xs" by (metis length_map)
  have "ps ! k = f (xs ! k)" if "k < length xs" for k
  proof -
    from eq have "map (snd \<circ> task) xs ! k = map Inr ps ! k" by simp
    with that len have "snd (task (xs ! k)) = Inr (ps ! k)" by simp
    with assms(2) show ?thesis by blast
  qed
  with len show ?thesis by (simp add: list_eq_iff_nth_eq)
qed

lemma audio_batches_paths:
  assumes "(tr, Inr paths) \<in> audio_batches task tot bs ss acc"
    and "\<forall>i p. snd (task i) = Inr p \<longrightarrow> p = f i"
  shows "paths = acc @ map f (concat (map (batch_indices tot bs) ss))"
  using assms(1)
proof (induction ss arbitrary: acc tr)
  case Nil
  then show ?case by simp
next
  case (Cons s rest)
  from Cons.prems show ?case
  proof (cases rule: audio_batches_step)
    case (raised e)
    then show ?thesis by simp
  next
    case (continued t ps tr')
    from gather_finished_results [OF continued(1) assms(2)]
    have "ps = map f (batch_indices tot bs s)" .
    with Cons.IH [OF continued(2)] show ?thesis by simp
  qed
qed




subsection \<open>The batch starts\<close>

lemma range_count:
  assumes "0 < bs"
  shows "(if (0::int) < int n then nat ((int n - 0 - 1) div int bs + 1) else 0) = (n + bs - 1) div bs"
proof (cases n)
  case 0
  with assms show ?thesis by simp
next
  case (Suc m)
  have "(int (Suc m) - 1) div int bs + 1 = int (m div bs + 1)"
    by (simp add: zdiv_int)
  moreover have "(Suc m + bs - 1) div bs = m div bs + 1"
    using assms by simp
  ultimately show ?thesis using Suc by simp
qed

lemma py_range_pos:
  assumes "0 < bs"
  shows "py_range 0 (int n) (int bs) = Inr (map (\<lambda>k. int (k * bs)) [0..<(n + bs - 1) div bs])"
  using assms range_count [OF assms, of n] by (simp add: py_range_def)

lemma batches_pos:
  assumes "0 < b"
  shows "batches n b =
     map (\<lambda>k. [k * nat b..<min (k * nat b + nat b) n]) [0..<(n + nat b - 1) div nat b]"
proof -
  define c where "c = nat b"
  with assms have b: "b = int c" and c: "0 < c" by simp_all
  have "batches n (int c) = map (\<lambda>k. [k * c..<min (k * c + c) n]) [0..<(n + c - 1) div c]"
    using py_range_pos [OF c, of n]
    by (simp add: batches_def batch_indices_def comp_def Let_def del: of_nat_mult)
  then show ?thesis by (simp add: b)
qed

lemma upt_append_upt: "i \<le> j \<Longrightarrow> j \<le> k \<Longrightarrow> [i..<j] @ [j..<k] = [i..<k]"
  using upt_add_eq_append [of i j "k - j"] by simp

lemma concat_slices:
  "concat (map (\<lambda>k. [k * bs..<min (k * bs + bs) n]) [0..<m]) = [0..<min (m * bs) n]"
proof (induction m)
  case 0
  show ?case by simp
next
  case (Suc m)
  have "[0..<min (m * bs) n] @ [m * bs..<min (m * bs + bs) n] = [0..<min (Suc m * bs) n]"
  proof (cases "m * bs \<le> n")
    case True
    then have "[0..<m * bs] @ [m * bs..<min (m * bs + bs) n] = [0..<min (m * bs + bs) n]"
      by (intro upt_append_upt) simp_all
    with True show ?thesis by (simp add: min_absorb1 add.commute)
  next
    case False
    then show ?thesis by (simp add: min_absorb2)
  qed
  with Suc show ?case by simp
qed

lemma ceil_mult_ge:
  assumes "0 < (bs::nat)"
  shows "n \<le> ((n + bs - 1) div bs) * bs"
proof -
  have "((n + bs - 1) div bs) * bs + (n + bs - 1) mod bs = n + bs - 1"
    by (rule div_mult_mod_eq)
  moreover from assms have "(n + bs - 1) mod bs < bs"
    by (rule mod_less_divisor)
  ultimately show ?thesis by linarith
qed

lemma concat_batches:
  assumes "0 < b"
  shows "concat (batches n b) = [0..<n]"
proof -
  from assms have c: "0 < nat b" by simp
  have "concat (batches n b) = [0..<min (((n + nat b - 1) div nat b) * nat b) n]"
    by (simp only: batches_pos [OF assms] concat_slices)
  also have "min (((n + nat b - 1) div nat b) * nat b) n = n"
    using ceil_mult_ge [OF c, of n] by (rule min_absorb2)
  finally show ?thesis .
qed




subsection \<open>File names\<close>

lemma digit_char_cases:
  assumes "d < 10"
  shows "digit_char d \<in> set ''0123456789''" "digit_value (digit_char d) = d"
proof -
  from assms have d: "d = 0 \<or> d = 1 \<or> d = 2 \<or> d = 3 \<or> d = 4 \<or> d = 5 \<or> d = 6 \<or> d = 7 \<or>
      d = 8 \<or> d = 9"
    by presburger
  from d show "digit_char d \<in> set ''0123456789''"
    by (elim disjE) (simp_all add: digit_char_def)
  from d show "digit_value (digit_char d) = d"
    by (elim disjE) (simp_all add: digit_char_def digit_value_def)
qed

lemma read_decimal_snoc: "read_decimal (s @ [c]) = 10 * read_decimal s + digit_value c"
  by (simp add: read_decimal_def)

lemma read_decimal_decimal: "read_decimal (decimal n) = n"
proof (induction n rule: decimal.induct)
  case (1 n)
  show ?case
  proof (cases "n < 10")
    case True
    then show ?thesis
      by (simp add: decimal.simps [of n] read_decimal_def digit_char_cases)
  next
    case False
    with 1 have "read_decimal (decimal (n div 10)) = n div 10" by simp
    with False show ?thesis
      by (simp add: decimal.simps [of n] read_decimal_snoc digit_char_cases)
  qed
qed

lemma read_decimal_zeros: "read_decimal (replicate k CHR ''0'' @ s) = read_decimal s"
proof -
  have "foldl (\<lambda>a c. 10 * a + digit_value c) 0 (replicate k CHR ''0'') = 0"
    by (induction k) (simp_all add: digit_value_def)
  then show ?thesis by (simp add: read_decimal_def)
qed

lemma decimal_digits: "set (decimal n) \<subseteq> set ''0123456789''"
proof (induction n rule: decimal.induct)
  case (1 n)
  show ?case
  proof (cases "n < 10")
    case True
    with digit_char_cases(1) [of n] show ?thesis
      by (simp add: decimal.simps [of n])
  next
    case False
    with 1 digit_char_cases(1) [of "n mod 10"] show ?thesis
      by (simp add: decimal.simps [of n])
  qed
qed

lemma length_decimal_pos: "0 < length (decimal n)"
  by (simp add: decimal.simps [of n])

lemma length_decimal_le: "0 < k \<Longrightarrow> n < 10 ^ k \<Longrightarrow> length (decimal n) \<le> k"
proof (induction k arbitrary: n)
  case 0
  then show ?case by simp
next
  case (Suc k)
  show ?case
  proof (cases "n < 10")
    case True
    then show ?thesis by (simp add: decimal.simps [of n])
  next
    case False
    with Suc.prems have k: "0 < k" by (cases k) auto
    from Suc.prems have "n div 10 < 10 ^ k"
      by (simp add: less_mult_imp_div_less mult.commute)
    from Suc.IH [OF k this] False show ?thesis
      by (simp add: decimal.simps [of n])
  qed
qed

lemma fmt_04d_properties:
  "read_decimal (fmt_04d i) = i" "set (fmt_04d i) \<subseteq> set ''0123456789''"
  "4 \<le> length (fmt_04d i)" "i < 10000 \<Longrightarrow> length (fmt_04d i) = 4"
proof -
  show "read_decimal (fmt_04d i) = i"
    by (simp add: fmt_04d_def read_decimal_zeros read_decimal_decimal)
  show "set (fmt_04d i) \<subseteq> set ''0123456789''"
    using decimal_digits [of i] by (auto simp: fmt_04d_def)
  show "4 \<le> length (fmt_04d i)"
    by (simp add: fmt_04d_def)
  show "length (fmt_04d i) = 4" if "i < 10000"
    using length_decimal_le [of 4 i] that by (simp add: fmt_04d_def)
qed

lemma join_snoc: "xs \<noteq> [] \<Longrightarrow> join sep (xs @ [y]) = join sep xs @ sep @ y"
  by (induction sep xs rule: join.induct) auto

lemma path_str_clip:
  assumes "d \<noteq> []"
  shows "path_str (path_join (path_join d ''clips'') f) = path_str d @ ''/clips/'' @ f"
proof -
  have "join ''/'' ((d @ [''clips'']) @ [f]) = join ''/'' (d @ [''clips'']) @ ''/'' @ f"
    by (rule join_snoc) simp
  also have "join ''/'' (d @ [''clips'']) = join ''/'' d @ ''/'' @ ''clips''"
    using assms by (rule join_snoc)
  finally show ?thesis
    by (simp add: path_str_def path_join_def)
qed

subsection \<open>The node\<close>


lemma line_task_result:
  assumes "snd (line_task backend fs state sp i) = Inr p"
  shows "p = path_join (path_join (state_output_dir state) ''clips'') (fmt_04d i @ ''.mp3'')"
    and "Finished i \<in> set (fst (line_task backend fs state sp i))"
  using clip_result_Inr(1,2) [OF assms [unfolded line_task_def]]
  by (simp_all add: line_task_def clip_path_def line_info_of_def Let_def)

lemma node_positive:
  assumes "0 < tts_batch_size env" "state_speaker_profile state = Some sp"
  obtains ss where
    "generate_all_audio_node backend fs env state =
       audio_batches (line_task backend fs state sp) (length (state_transcript state))
         (nat (tts_batch_size env)) ss []"
    "map (batch_indices (length (state_transcript state)) (nat (tts_batch_size env))) ss =
       batches (length (state_transcript state)) (tts_batch_size env)"
proof -
  define b where "b = tts_batch_size env"
  define n where "n = length (state_transcript state)"
  from assms(1) have c: "0 < nat b" "b = int (nat b)" by (simp_all add: b_def)
  from py_range_pos [OF c(1), of n] c(2) obtain starts where
    s: "py_range 0 (int n) b = Inr starts" by simp
  show thesis
  proof (rule that [of "map nat starts"])
    show "generate_all_audio_node backend fs env state =
       audio_batches (line_task backend fs state sp) (length (state_transcript state))
         (nat (tts_batch_size env)) (map nat starts) []"
      using s assms(2)
      by (simp add: generate_all_audio_node_def Let_def b_def [symmetric] n_def [symmetric])
    show "map (batch_indices (length (state_transcript state)) (nat (tts_batch_size env)))
        (map nat starts) = batches (length (state_transcript state)) (tts_batch_size env)"
      using s by (simp add: batches_def b_def [symmetric] n_def [symmetric])
  qed
qed

lemma node_run_positive:
  assumes "(tr, res) \<in> generate_all_audio_node backend fs env state" "0 < tts_batch_size env"
    "tr \<noteq> [] \<or> (\<exists>ps. res = Inr ps)"
  obtains sp ss where
    "(tr, res) \<in> audio_batches (line_task backend fs state sp) (length (state_transcript state))
         (nat (tts_batch_size env)) ss []"
    "map (batch_indices (length (state_transcript state)) (nat (tts_batch_size env))) ss =
       batches (length (state_transcript state)) (tts_batch_size env)"
proof (cases "state_speaker_profile state")
  case None
  with assms(1,3) show thesis
    by (auto simp: generate_all_audio_node_def Let_def)
next
  case (Some sp)
  from node_positive [OF assms(2) Some, of backend fs] obtain ss where
    ss: "generate_all_audio_node backend fs env state =
       audio_batches (line_task backend fs state sp) (length (state_transcript state))
         (nat (tts_batch_size env)) ss []"
    "map (batch_indices (length (state_transcript state)) (nat (tts_batch_size env))) ss =
       batches (length (state_transcript state)) (tts_batch_size env)"
    by blast
  show thesis
    by (rule that [of sp ss]) (use assms(1) ss in simp_all)
qed


subsection \<open>A run in which every call succeeds at once\<close>

lemma clip_first_try:
  assumes "backend (clip_request fs info ec sc) 0 = None"
  shows "generate_single_audio_clip backend fs info ec sc =
     ([Started (info_index info), Speech (info_index info) 0 (clip_request fs info ec sc),
       Finished (info_index info)], Inr (clip_path info))"
  using synthesis_attempts_success_from [of 0 0 backend "clip_request fs info ec sc" "info_index info"]
    assms
  by (simp add: generate_single_audio_clip_def Let_def)

lemma line_task_first_try:
  assumes "backend (line_request fs state sp i) 0 = None"
  shows "line_task backend fs state sp i =
     ([Started i, Speech i 0 (line_request fs state sp i), Finished i],
      Inr (state_output_dir state @ [''clips'', fmt_04d i @ ''.mp3'']))"
  using clip_first_try [of backend fs "line_info_of state sp i" "state_emotions_config state"
      "state_speed_config state"] assms
  by (simp add: line_task_def line_request_def clip_path_def path_join_def line_info_of_def)

lemma audio_batches_sequential:
  assumes "\<forall>i \<in> set (concat (map (batch_indices tot bs) ss)).
      snd (task i) = Inr (f i) \<and> (\<forall>j e. Aborted j e \<notin> set (fst (task i)))"
  shows "(sequential_events task tot bs ss,
      Inr (acc @ map f (concat (map (batch_indices tot bs) ss)))) \<in> audio_batches task tot bs ss acc"
  using assms
proof (induction ss arbitrary: acc)
  case Nil
  show ?case by (simp add: sequential_events_def)
next
  case (Cons s rest)
  define xs where "xs = batch_indices tot bs s"
  define pz where "pz = (if min (s + bs) tot < tot then [BatchPause 1] else [])"
  from Cons.prems have ok: "\<forall>i \<in> set xs. snd (task i) = Inr (f i) \<and>
      (\<forall>j e. Aborted j e \<notin> set (fst (task i)))"
    by (simp add: xs_def)
  have g: "(concat (map fst (map task xs)), Inr (map f xs)) \<in> gather (map task xs)"
    by (rule gather_sequential) (use ok in auto)
  have r: "(sequential_events task tot bs rest,
      Inr ((acc @ map f xs) @ map f (concat (map (batch_indices tot bs) rest))))
      \<in> audio_batches task tot bs rest (acc @ map f xs)"
    by (rule Cons.IH) (use Cons.prems in simp)
  have "(concat (map fst (map task xs)) @ pz @ sequential_events task tot bs rest,
      Inr ((acc @ map f xs) @ map f (concat (map (batch_indices tot bs) rest))))
      \<in> audio_batches task tot bs (s # rest) acc"
    unfolding audio_batches.simps xs_def [symmetric] pz_def [symmetric]
    using g r by force
  then show ?case
    by (simp add: sequential_events_def xs_def pz_def)
qed

lemma three_lines_node:
  "generate_all_audio_node backend fs (Some 2) three_lines =
     audio_batches (line_task backend fs three_lines two_voices) 3 2 [0, 2] []"
proof -
  have r: "py_range 0 3 2 = Inr [0, 2]"
    by (simp add: py_range_def upt_rec)
  have len: "length (state_transcript three_lines) = 3"
    and sp: "state_speaker_profile three_lines = Some two_voices"
    by (simp_all add: three_lines_def state_of_def)
  show ?thesis
    unfolding generate_all_audio_node_def Let_def len sp
    by (simp add: r tts_batch_size_def del: audio_batches.simps)
qed

lemma three_lines_tasks:
  "line_task (fails_before 0) Map.empty three_lines two_voices i =
     ([Started i, Speech i 0 (line_request Map.empty three_lines two_voices i), Finished i],
      Inr ([''out'', ''clips'', fmt_04d i @ ''.mp3'']))"
  using line_task_first_try [of "fails_before 0" Map.empty three_lines two_voices i]
  by (simp add: fails_before_def three_lines_def state_of_def)

lemma three_lines_run:
  "(sequential_events (line_task (fails_before 0) Map.empty three_lines two_voices) 3 2 [0, 2],
    Inr [[''out'', ''clips'', ''0000.mp3''], [''out'', ''clips'', ''0001.mp3''],
         [''out'', ''clips'', ''0002.mp3'']])
   \<in> generate_all_audio_node (fails_before 0) Map.empty (Some 2) three_lines"
proof -
  have idx: "concat (map (batch_indices 3 2) [0, 2]) = [0, 1, 2]"
    by (simp add: batch_indices_def upt_rec)
  have m: "(sequential_events (line_task (fails_before 0) Map.empty three_lines two_voices) 3 2 [0, 2],
      Inr ([] @ map (\<lambda>i. [''out'', ''clips'', fmt_04d i @ ''.mp3''])
        (concat (map (batch_indices 3 2) [0, 2]))))
    \<in> audio_batches (line_task (fails_before 0) Map.empty three_lines two_voices) 3 2 [0, 2] []"
    by (rule audio_batches_sequential) (simp add: three_lines_tasks del: audio_batches.simps)
  have f: "fmt_04d 0 = ''0000''" "fmt_04d 1 = ''0001''" "fmt_04d 2 = ''0002''"
    by (simp_all add: fmt_04d_def decimal.simps digit_char_def numeral_3_eq_3)
  have p: "[] @ map (\<lambda>i. [''out'', ''clips'', fmt_04d i @ ''.mp3''])
        (concat (map (batch_indices 3 2) [0, 2])) =
      [[''out'', ''clips'', ''0000.mp3''], [''out'', ''clips'', ''0001.mp3''],
       [''out'', ''clips'', ''0002.mp3'']]"
    unfolding idx using f by simp
  from m show ?thesis
    unfolding p three_lines_node .
qed


text \<open>
  C1 as stated fails twice.  With the batch size \<open>-1\<close> the range of batch starts is empty
  and the node returns successfully with no clip path for a transcript of one line; and
  the clip of index 10000 is named with five digits.
\<close>

theorem clip_paths_counterexample:
  "length (state_transcript (state_of [happy_line])) = 1 \<and>
   generate_all_audio_node (fails_before 0) Map.empty (Some (- 1)) (state_of [happy_line]) =
     {([], Inr [])} \<and>
   fmt_04d 10000 = ''10000''"
proof -
  have "py_range 0 1 (- 1) = Inr []"
    by (simp add: py_range_def)
  then have "generate_all_audio_node (fails_before 0) Map.empty (Some (- 1))
      (state_of [happy_line]) = {([], Inr [])}"
    by (simp add: generate_all_audio_node_def Let_def state_of_def tts_batch_size_def)
  moreover have "fmt_04d 10000 = ''10000''"
    by (simp add: fmt_04d_def decimal.simps digit_char_def)
  ultimately show ?thesis by (simp add: state_of_def)
qed

text \<open>
  C1, amended.  For a positive batch size, every successful run of the node returns exactly
  one clip path for each line of the transcript, and the path at index \<open>i\<close> is the output
  directory, then \<open>clips\<close>, then the file name made of \<open>i\<close> in decimal digits, padded with
  zeros to at least four digits (exactly four below 10000), and the extension \<open>.mp3\<close>.
\<close>

theorem clip_paths_index_aligned:
  "0 < tts_batch_size env \<longrightarrow>
   (\<forall>tr paths. (tr, Inr paths) \<in> generate_all_audio_node backend fs env state \<longrightarrow>
      length paths = length (state_transcript state) \<and>
      (\<forall>i < length (state_transcript state).
         paths ! i = state_output_dir state @ [''clips'', fmt_04d i @ ''.mp3''] \<and>
         (state_output_dir state \<noteq> [] \<longrightarrow>
            path_str (paths ! i) =
              path_str (state_output_dir state) @ ''/clips/'' @ fmt_04d i @ ''.mp3'') \<and>
         read_decimal (fmt_04d i) = i \<and> set (fmt_04d i) \<subseteq> set ''0123456789'' \<and>
         4 \<le> length (fmt_04d i) \<and> (i < 10000 \<longrightarrow> length (fmt_04d i) = 4)))"
proof (intro impI allI)
  fix tr paths
  assume b: "0 < tts_batch_size env"
    and run: "(tr, Inr paths) \<in> generate_all_audio_node backend fs env state"
  define n where "n = length (state_transcript state)"
  define f where "f = (\<lambda>i. path_join (path_join (state_output_dir state) ''clips'')
      (fmt_04d i @ ''.mp3''))"
  from run b obtain sp ss where
    ab: "(tr, Inr paths) \<in> audio_batches (line_task backend fs state sp) n
         (nat (tts_batch_size env)) ss []"
    and ss: "map (batch_indices n (nat (tts_batch_size env))) ss = batches n (tts_batch_size env)"
    unfolding n_def by (rule node_run_positive) auto
  have "\<forall>i p. snd (line_task backend fs state sp i) = Inr p \<longrightarrow> p = f i"
    using line_task_result(1) by (simp add: f_def)
  from audio_batches_paths [OF ab this] ss concat_batches [OF b, of n]
  have paths: "paths = map f [0..<n]" by simp
  have len: "length paths = n" by (simp add: paths)
  have each: "paths ! i = state_output_dir state @ [''clips'', fmt_04d i @ ''.mp3''] \<and>
         (state_output_dir state \<noteq> [] \<longrightarrow>
            path_str (paths ! i) =
              path_str (state_output_dir state) @ ''/clips/'' @ fmt_04d i @ ''.mp3'') \<and>
         read_decimal (fmt_04d i) = i \<and> set (fmt_04d i) \<subseteq> set ''0123456789'' \<and>
         4 \<le> length (fmt_04d i) \<and> (i < 10000 \<longrightarrow> length (fmt_04d i) = 4)"
    if "i < n" for i
  proof -
    from that have p: "paths ! i = f i" by (simp add: paths)
    have "f i = state_output_dir state @ [''clips'', fmt_04d i @ ''.mp3'']"
      by (simp add: f_def path_join_def)
    moreover have "path_str (f i) =
        path_str (state_output_dir state) @ ''/clips/'' @ fmt_04d i @ ''.mp3''"
      if "state_output_dir state \<noteq> []"
      unfolding f_def using that by (rule path_str_clip)
    ultimately show ?thesis
      using fmt_04d_properties [of i] unfolding p by blast
  qed
  from len each
  show "length paths = length (state_transcript state) \<and>
      (\<forall>i < length (state_transcript state).
         paths ! i = state_output_dir state @ [''clips'', fmt_04d i @ ''.mp3''] \<and>
         (state_output_dir state \<noteq> [] \<longrightarrow>
            path_str (paths ! i) =
              path_str (state_output_dir state) @ ''/clips/'' @ fmt_04d i @ ''.mp3'') \<and>
         read_decimal (fmt_04d i) = i \<and> set (fmt_04d i) \<subseteq> set ''0123456789'' \<and>
         4 \<le> length (fmt_04d i) \<and> (i < 10000 \<longrightarrow> length (fmt_04d i) = 4))"
    unfolding n_def [symmetric] by blast
qed


theorem clip_paths_index_aligned_witness:
  "(sequential_events (line_task (fails_before 0) Map.empty three_lines two_voices) 3 2 [0, 2],
    Inr [[''out'', ''clips'', ''0000.mp3''], [''out'', ''clips'', ''0001.mp3''],
         [''out'', ''clips'', ''0002.mp3'']])
     \<in> generate_all_audio_node (fails_before 0) Map.empty (Some 2) three_lines \<and>
   length [[''out'', ''clips'', ''0000.mp3''], [''out'', ''clips'', ''0001.mp3''],
           [''out'', ''clips'', ''0002.mp3'']] = length (state_transcript three_lines) \<and>
   path_str [''out'', ''clips'', ''0002.mp3''] = ''out/clips/'' @ fmt_04d 2 @ ''.mp3'' \<and>
   read_decimal (fmt_04d 2) = 2 \<and> length (fmt_04d 2) = 4"
proof -
  have b: "0 < tts_batch_size (Some 2)"
    by (simp add: tts_batch_size_def)
  have n: "length (state_transcript three_lines) = 3"
    and d: "state_output_dir three_lines = [''out'']"
    by (simp_all add: three_lines_def state_of_def)
  from clip_paths_index_aligned [of "Some 2" "fails_before 0" Map.empty three_lines,
      rule_format, OF b three_lines_run]
  have "length [[''out'', ''clips'', ''0000.mp3''], [''out'', ''clips'', ''0001.mp3''],
           [''out'', ''clips'', ''0002.mp3'']] = length (state_transcript three_lines) \<and>
      (\<forall>i < length (state_transcript three_lines).
         [[''out'', ''clips'', ''0000.mp3''], [''out'', ''clips'', ''0001.mp3''],
           [''out'', ''clips'', ''0002.mp3'']] ! i =
           state_output_dir three_lines @ [''clips'', fmt_04d i @ ''.mp3''] \<and>
         (state_output_dir three_lines \<noteq> [] \<longrightarrow>
            path_str ([[''out'', ''clips'', ''0000.mp3''], [''out'', ''clips'', ''0001.mp3''],
              [''out'', ''clips'', ''0002.mp3'']] ! i) =
              path_str (state_output_dir three_lines) @ ''/clips/'' @ fmt_04d i @ ''.mp3'') \<and>
         read_decimal (fmt_04d i) = i \<and> set (fmt_04d i) \<subseteq> set ''0123456789'' \<and>
         4 \<le> length (fmt_04d i) \<and> (i < 10000 \<longrightarrow> length (fmt_04d i) = 4))"
    by blast
  then have len: "length [[''out'', ''clips'', ''0000.mp3''], [''out'', ''clips'', ''0001.mp3''],
           [''out'', ''clips'', ''0002.mp3'']] = length (state_transcript three_lines)"
    and each: "\<forall>i < 3.
         (state_output_dir three_lines \<noteq> [] \<longrightarrow>
            path_str ([[''out'', ''clips'', ''0000.mp3''], [''out'', ''clips'', ''0001.mp3''],
              [''out'', ''clips'', ''0002.mp3'']] ! i) =
              path_str (state_output_dir three_lines) @ ''/clips/'' @ fmt_04d i @ ''.mp3'') \<and>
         read_decimal (fmt_04d i) = i \<and> (i < 10000 \<longrightarrow> length (fmt_04d i) = 4)"
    unfolding n by blast+
  from each [rule_format, of 2]
  have "path_str [''out'', ''clips'', ''0002.mp3''] = ''out/clips/'' @ fmt_04d 2 @ ''.mp3''"
    and "read_decimal (fmt_04d 2) = 2" and "length (fmt_04d 2) = 4"
    unfolding d by (simp_all add: path_str_def)
  with three_lines_run len show ?thesis by blast
qed





subsection \<open>A line that raises ends the run\<close>

lemma until_abort_None_no_abort:
  "snd (until_abort tr) = None \<Longrightarrow> Aborted i e \<notin> set tr"
  by (induction tr rule: until_abort.induct) (auto split: prod.splits)

lemma gather_finished_no_abort:
  assumes "(t, Inr ps) \<in> gather tasks"
  shows "Aborted i e \<notin> set t"
proof -
  from assms obtain tr where eq: "(t, Inr ps) = (case until_abort tr of
              (p, Some err) \<Rightarrow> (p, Inl err)
            | (p, None) \<Rightarrow> (p, sequence (map snd tasks)))"
    unfolding gather_def by auto
  obtain p a where ua: "until_abort tr = (p, a)" by (cases "until_abort tr")
  with eq have a: "a = None" by (cases a) auto
  with ua until_abort_None [of tr] have "p = tr" by simp
  with eq ua a have "t = tr" by simp
  with ua a until_abort_None_no_abort [of tr i e] show ?thesis by simp
qed

lemma audio_batches_abort:
  assumes "(tr, res) \<in> audio_batches task tot bs ss acc" "Aborted i e \<in> set tr"
  shows "\<exists>e'. res = Inl e'"
  using assms
proof (induction ss arbitrary: acc tr)
  case Nil
  then show ?case by simp
next
  case (Cons s rest)
  from Cons.prems(1) show ?case
  proof (cases rule: audio_batches_step)
    case (raised err)
    then show ?thesis by simp
  next
    case (continued t ps tr')
    from gather_finished_no_abort [OF continued(1)] continued(3) Cons.prems(2)
    have "Aborted i e \<in> set tr'" by (auto split: if_splits)
    with Cons.IH [OF continued(2)] show ?thesis .
  qed
qed

lemma node_abort:
  assumes "(tr, res) \<in> generate_all_audio_node backend fs env state" "Aborted i e \<in> set tr"
  shows "\<exists>e'. res = Inl e'"
proof -
  from assms(2) have ne: "tr \<noteq> []" by auto
  from assms(1) ne obtain sp starts where
    "(tr, res) \<in> audio_batches (line_task backend fs state sp) (length (state_transcript state))
       (nat (tts_batch_size env)) (map nat starts) []"
    by (auto simp: generate_all_audio_node_def Let_def split: option.splits sum.splits)
  then show ?thesis using assms(2) by (rule audio_batches_abort)
qed

lemma gather_single: "gather [task] =
    {case until_abort (fst task) of (p, Some err) \<Rightarrow> (p, Inl err)
       | (p, None) \<Rightarrow> (p, sequence [snd task])}"
  by (simp add: gather_def)

lemma until_abort_at_abort:
  assumes "\<forall>j e. Aborted j e \<notin> set xs"
  shows "until_abort (xs @ Aborted i err # ys) = (xs @ [Aborted i err], Some err)"
  using assms
proof (induction xs)
  case Nil
  show ?case by simp
next
  case (Cons x xs)
  then have "until_abort (xs @ Aborted i err # ys) = (xs @ [Aborted i err], Some err)" by simp
  with Cons.prems show ?case by (cases x) auto
qed

lemma failed_attempts_no_abort: "Aborted j e \<notin> set (failed_attempts i req k)"
  by (auto simp: failed_attempts_def)

lemma line_task_exhausted:
  assumes "\<forall>a<5. backend (line_request fs state sp i) a = Some msg"
  shows "line_task backend fs state sp i =
     (Started i # failed_attempts i (line_request fs state sp i) 4 @
        [Speech i 4 (line_request fs state sp i), Aborted i (AudioRuntimeError i msg)],
      Inl (AudioRuntimeError i msg))"
proof -
  from assms have "\<forall>a. 0 \<le> a \<and> a < 5 \<longrightarrow> backend (line_request fs state sp i) a \<noteq> None"
    and "backend (line_request fs state sp i) 4 = Some msg"
    by simp_all
  with synthesis_attempts_exhausted_from [of 0 backend "line_request fs state sp i" i]
  show ?thesis
    by (simp add: line_task_def line_request_def generate_single_audio_clip_def Let_def
        failed_attempts_def line_info_of_def)
qed

lemma one_line_failed_run:
  "(Started 0 # failed_attempts 0 (line_request Map.empty (state_of [happy_line]) two_voices 0) 4 @
      [Speech 0 4 (line_request Map.empty (state_of [happy_line]) two_voices 0),
       Aborted 0 (AudioRuntimeError 0 ''timeout'')],
    Inl (AudioRuntimeError 0 ''timeout''))
   \<in> generate_all_audio_node (fails_before 5) Map.empty (Some 1) (state_of [happy_line])"
proof -
  let ?rq = "line_request Map.empty (state_of [happy_line]) two_voices 0"
  let ?tr = "Started 0 # failed_attempts 0 ?rq 4 @
      [Speech 0 4 ?rq, Aborted 0 (AudioRuntimeError 0 ''timeout'')]"
  have r: "py_range 0 1 1 = Inr [0]"
    by (simp add: py_range_def)
  have len: "length (state_transcript (state_of [happy_line])) = 1"
    and sp: "state_speaker_profile (state_of [happy_line]) = Some two_voices"
    by (simp_all add: state_of_def)
  have node: "generate_all_audio_node (fails_before 5) Map.empty (Some 1) (state_of [happy_line]) =
      audio_batches (line_task (fails_before 5) Map.empty (state_of [happy_line]) two_voices)
        1 1 [0] []"
    unfolding generate_all_audio_node_def Let_def len sp
    by (simp add: r tts_batch_size_def del: audio_batches.simps)
  have task: "line_task (fails_before 5) Map.empty (state_of [happy_line]) two_voices 0 =
      (?tr, Inl (AudioRuntimeError 0 ''timeout''))"
    by (rule line_task_exhausted) (simp add: fails_before_def)
  have "until_abort ((Started 0 # failed_attempts 0 ?rq 4 @ [Speech 0 4 ?rq]) @
      Aborted 0 (AudioRuntimeError 0 ''timeout'') # []) =
      ((Started 0 # failed_attempts 0 ?rq 4 @ [Speech 0 4 ?rq]) @
         [Aborted 0 (AudioRuntimeError 0 ''timeout'')], Some (AudioRuntimeError 0 ''timeout''))"
    by (rule until_abort_at_abort) (simp add: failed_attempts_no_abort)
  then have cut: "until_abort ?tr = (?tr, Some (AudioRuntimeError 0 ''timeout''))"
    by simp
  have "gather [line_task (fails_before 5) Map.empty (state_of [happy_line]) two_voices 0] =
      {(?tr, Inl (AudioRuntimeError 0 ''timeout''))}"
    unfolding gather_single task fst_conv snd_conv cut by simp
  moreover have "batch_indices 1 1 0 = [0]"
    by (simp add: batch_indices_def)
  ultimately show ?thesis
    unfolding node by simp
qed

section \<open>Properties of the retry loop of a line\<close>

text \<open>
  C3.  One line's coroutine calls the backend at most 5 times.  If all 5 attempts fail it
  raises the audio error built from the last exception, after the attempts 0 to 3 each
  followed by a pause of 3 seconds and attempt 4 with no pause.  If attempt \<open>k\<close> (below 5)
  is the first to return, the clip path is returned after \<open>k\<close> failed attempts, each
  followed by a pause of 3 seconds, and no error is raised.  A run of the node in which a
  line has raised ends with an error.
\<close>

theorem synthesis_retry:
  fixes backend :: tts_backend and fs info ec sc backend' fs' env state
  defines "req \<equiv> clip_request fs info ec sc" and "i \<equiv> info_index info"
  shows
    "length (filter is_speech (fst (generate_single_audio_clip backend fs info ec sc))) \<le> 5 \<and>
     ((\<forall>a<5. backend req a \<noteq> None) \<longrightarrow>
        generate_single_audio_clip backend fs info ec sc =
          (Started i # failed_attempts i req 4 @
             [Speech i 4 req, Aborted i (AudioRuntimeError i (the (backend req 4)))],
           Inl (AudioRuntimeError i (the (backend req 4))))) \<and>
     (\<forall>k<5. backend req k = None \<and> (\<forall>a<k. backend req a \<noteq> None) \<longrightarrow>
        generate_single_audio_clip backend fs info ec sc =
          (Started i # failed_attempts i req k @ [Speech i k req, Finished i],
           Inr (clip_path info))) \<and>
     (\<forall>tr res j e. (tr, res) \<in> generate_all_audio_node backend' fs' env state \<and>
        Aborted j e \<in> set tr \<longrightarrow> (\<exists>e'. res = Inl e'))"
proof -
  obtain ev0 r0 where a: "synthesis_attempts backend i req [0..<5] = (ev0, r0)"
    by (cases "synthesis_attempts backend i req [0..<5]")
  have count: "length (filter is_speech (fst (generate_single_audio_clip backend fs info ec sc))) \<le> 5"
    using synthesis_attempts_count [of backend i req "[0..<5]"] a
    by (simp add: generate_single_audio_clip_def Let_def req_def [symmetric] i_def [symmetric]
        split: option.splits)
  have fail: "generate_single_audio_clip backend fs info ec sc =
      (Started i # failed_attempts i req 4 @
         [Speech i 4 req, Aborted i (AudioRuntimeError i (the (backend req 4)))],
       Inl (AudioRuntimeError i (the (backend req 4))))"
    if "\<forall>a<5. backend req a \<noteq> None"
    using synthesis_attempts_exhausted_from [of 0 backend req i] that
    by (simp add: generate_single_audio_clip_def Let_def req_def [symmetric] i_def [symmetric]
        failed_attempts_def)
  have ok: "generate_single_audio_clip backend fs info ec sc =
      (Started i # failed_attempts i req k @ [Speech i k req, Finished i], Inr (clip_path info))"
    if "k < 5" "backend req k = None" "\<forall>a<k. backend req a \<noteq> None" for k
    using synthesis_attempts_success_from [of 0 k backend req i] that
    by (simp add: generate_single_audio_clip_def Let_def req_def [symmetric] i_def [symmetric]
        failed_attempts_def)
  have abort: "\<exists>e'. res = Inl e'"
    if "(tr, res) \<in> generate_all_audio_node backend' fs' env state" "Aborted j e \<in> set tr"
    for tr res j e
    using that by (rule node_abort)
  show ?thesis
    using count fail ok abort by blast
qed

theorem synthesis_retry_witness:
  "generate_single_audio_clip (fails_before 5) Map.empty (line_info happy_line 3 None)
       (Some emotions_table) (Some load_speed_config) =
     (Started 3 #
        failed_attempts 3
          (clip_request Map.empty (line_info happy_line 3 None) (Some emotions_table) (Some load_speed_config)) 4 @
        [Speech 3 4
           (clip_request Map.empty (line_info happy_line 3 None) (Some emotions_table) (Some load_speed_config)),
         Aborted 3 (AudioRuntimeError 3 ''timeout'')],
      Inl (AudioRuntimeError 3 ''timeout'')) \<and>
   generate_single_audio_clip (fails_before 4) Map.empty (line_info happy_line 3 None)
       (Some emotions_table) (Some load_speed_config) =
     (Started 3 #
        failed_attempts 3
          (clip_request Map.empty (line_info happy_line 3 None) (Some emotions_table) (Some load_speed_config)) 4 @
        [Speech 3 4
           (clip_request Map.empty (line_info happy_line 3 None) (Some emotions_table) (Some load_speed_config)),
         Finished 3],
      Inr [''out'', ''clips'', ''0003.mp3'']) \<and>
   (Started 0 # failed_attempts 0 (line_request Map.empty (state_of [happy_line]) two_voices 0) 4 @
      [Speech 0 4 (line_request Map.empty (state_of [happy_line]) two_voices 0),
       Aborted 0 (AudioRuntimeError 0 ''timeout'')],
    Inl (AudioRuntimeError 0 ''timeout''))
     \<in> generate_all_audio_node (fails_before 5) Map.empty (Some 1) (state_of [happy_line])"
proof -
  have i: "info_index (line_info happy_line 3 None) = 3"
    by (simp add: line_info_def)
  have p: "clip_path (line_info happy_line 3 None) = [''out'', ''clips'', ''0003.mp3'']"
    by code_simp
  note t5 = synthesis_retry [where backend = "fails_before 5" and fs = Map.empty
      and info = "line_info happy_line 3 None" and ec = "Some emotions_table"
      and sc = "Some load_speed_config"]
  note t4 = synthesis_retry [where backend = "fails_before 4" and fs = Map.empty
      and info = "line_info happy_line 3 None" and ec = "Some emotions_table"
      and sc = "Some load_speed_config"]
  from t5 [THEN conjunct2, THEN conjunct1] have a:
    "generate_single_audio_clip (fails_before 5) Map.empty (line_info happy_line 3 None)
       (Some emotions_table) (Some load_speed_config) =
     (Started 3 #
        failed_attempts 3
          (clip_request Map.empty (line_info happy_line 3 None) (Some emotions_table) (Some load_speed_config)) 4 @
        [Speech 3 4
           (clip_request Map.empty (line_info happy_line 3 None) (Some emotions_table) (Some load_speed_config)),
         Aborted 3 (AudioRuntimeError 3 ''timeout'')],
      Inl (AudioRuntimeError 3 ''timeout''))"
    by (simp add: i fails_before_def)
  from t4 [THEN conjunct2, THEN conjunct2, THEN conjunct1, rule_format, of 4] have b:
    "generate_single_audio_clip (fails_before 4) Map.empty (line_info happy_line 3 None)
       (Some emotions_table) (Some load_speed_config) =
     (Started 3 #
        failed_attempts 3
          (clip_request Map.empty (line_info happy_line 3 None) (Some emotions_table) (Some load_speed_config)) 4 @
        [Speech 3 4
           (clip_request Map.empty (line_info happy_line 3 None) (Some emotions_table) (Some load_speed_config)),
         Finished 3],
      Inr [''out'', ''clips'', ''0003.mp3''])"
    by (simp add: i p fails_before_def)
  from a b one_line_failed_run show ?thesis by simp
qed

section \<open>Properties of the outline and transcript nodes\<close>

lemma outline_attempts_success_from:
  assumes "m \<le> k" "k < 3" "body k = Inr r" "\<forall>a. m \<le> a \<and> a < k \<longrightarrow> (\<exists>e. body a = Inl e)"
  shows "outline_attempts body [m..<3] =
     (concat (map (\<lambda>a. [OutlineCall a, SleepSeconds 1]) [m..<k]) @ [OutlineCall k], Inr r)"
  using assms
proof (induction "k - m" arbitrary: m)
  case 0
  then have "m = k" by simp
  with 0 show ?case by (simp add: upt_conv_Cons)
next
  case (Suc d)
  then have lt: "m < k" and m3: "m < 3" and m2: "m \<noteq> 2" by auto
  from Suc.prems lt obtain e where e: "body m = Inl e" by auto
  have ih: "outline_attempts body [Suc m..<3] =
     (concat (map (\<lambda>a. [OutlineCall a, SleepSeconds 1]) [Suc m..<k]) @ [OutlineCall k], Inr r)"
    using Suc.hyps(2) Suc.prems lt by (intro Suc.hyps(1)) auto
  from e m2 ih lt m3 show ?case
    by (simp add: upt_conv_Cons [of m])
qed

lemma outline_attempts_exhausted_from:
  assumes "m \<le> 2" "\<forall>a. m \<le> a \<and> a < 3 \<longrightarrow> (\<exists>e. body a = Inl e)" "body 2 = Inl e2"
  shows "outline_attempts body [m..<3] =
     (concat (map (\<lambda>a. [OutlineCall a, SleepSeconds 1]) [m..<2]) @ [OutlineCall 2],
      Inl (OutlineRuntimeError e2))"
  using assms
proof (induction "2 - m" arbitrary: m)
  case 0
  then have m: "m = 2" by simp
  with 0 show ?case by (simp add: upt_conv_Cons)
next
  case (Suc d)
  then have lt: "m < 2" and m3: "m < 3" and m2: "m \<noteq> 2" by auto
  from Suc.prems lt obtain e where e: "body m = Inl e" by auto
  have ih: "outline_attempts body [Suc m..<3] =
     (concat (map (\<lambda>a. [OutlineCall a, SleepSeconds 1]) [Suc m..<2]) @ [OutlineCall 2],
      Inl (OutlineRuntimeError e2))"
    using Suc.hyps(2) Suc.prems lt by (intro Suc.hyps(1)) auto
  from e m2 ih lt m3 show ?case
    by (simp add: upt_conv_Cons [of m])
qed

lemma transcript_attempts_success_from:
  assumes "m \<le> k" "k < 3" "body k = Inr r" "\<forall>a. m \<le> a \<and> a < k \<longrightarrow> (\<exists>e. body a = Inl e)"
  shows "transcript_attempts body i [m..<3] =
     (concat (map (\<lambda>a. [TranscriptCall i a, SleepSeconds 1]) [m..<k]) @ [TranscriptCall i k], Inr r)"
  using assms
proof (induction "k - m" arbitrary: m)
  case 0
  then have "m = k" by simp
  with 0 show ?case by (simp add: upt_conv_Cons)
next
  case (Suc d)
  then have lt: "m < k" and m3: "m < 3" and m2: "m \<noteq> 2" by auto
  from Suc.prems lt obtain e where e: "body m = Inl e" by auto
  have ih: "transcript_attempts body i [Suc m..<3] =
     (concat (map (\<lambda>a. [TranscriptCall i a, SleepSeconds 1]) [Suc m..<k]) @ [TranscriptCall i k], Inr r)"
    using Suc.hyps(2) Suc.prems lt by (intro Suc.hyps(1)) auto
  from e m2 ih lt m3 show ?case
    by (simp add: upt_conv_Cons [of m])
qed

lemma transcript_attempts_exhausted_from:
  assumes "m \<le> 2" "\<forall>a. m \<le> a \<and> a < 3 \<longrightarrow> (\<exists>e. body a = Inl e)"
  shows "transcript_attempts body i [m..<3] =
     (concat (map (\<lambda>a. [TranscriptCall i a, SleepSeconds 1]) [m..<2]) @ [TranscriptCall i 2],
      Inl TranscriptRuntimeError)"
  using assms
proof (induction "2 - m" arbitrary: m)
  case 0
  then have m: "m = 2" by simp
  from 0 m obtain e where "body 2 = Inl e" by auto
  with m show ?case by (simp add: upt_conv_Cons)
next
  case (Suc d)
  then have lt: "m < 2" and m3: "m < 3" and m2: "m \<noteq> 2" by auto
  from Suc.prems lt obtain e where e: "body m = Inl e" by auto
  have ih: "transcript_attempts body i [Suc m..<3] =
     (concat (map (\<lambda>a. [TranscriptCall i a, SleepSeconds 1]) [Suc m..<2]) @ [TranscriptCall i 2],
      Inl TranscriptRuntimeError)"
    using Suc.hyps(2) Suc.prems lt by (intro Suc.hyps(1)) auto
  from e m2 ih lt m3 show ?case
    by (simp add: upt_conv_Cons [of m])
qed

lemma transcript_segments_finished:
  assumes "todo = drop i segments"
    and "\<forall>j. i \<le> j \<and> j < length segments \<longrightarrow> snd (segment_block body segments j) = Inr (res j)"
  shows "transcript_segments body segments i todo acc =
     (concat (map (\<lambda>j. fst (segment_block body segments j)) [i..<length segments]),
      Inr (acc @ concat (map res [i..<length segments])))"
  using assms
proof (induction todo arbitrary: i acc)
  case Nil
  then have "length segments \<le> i" by simp
  then show ?case by simp
next
  case (Cons segment rest)
  from Cons.prems(1) have i: "i < length segments"
    by (metis drop_all list.distinct(1) not_le)
  with Cons.prems(1) have seg: "segment = segments ! i" and rest: "rest = drop (Suc i) segments"
    by (simp_all add: Cons_nth_drop_Suc [symmetric])
  obtain ev where blk: "segment_block body segments i = (ev, Inr (res i))"
    using Cons.prems(2) i by (cases "segment_block body segments i") auto
  have ih: "transcript_segments body segments (Suc i) rest (acc @ res i) =
     (concat (map (\<lambda>j. fst (segment_block body segments j)) [Suc i..<length segments]),
      Inr ((acc @ res i) @ concat (map res [Suc i..<length segments])))"
    by (rule Cons.IH [OF rest]) (use Cons.prems(2) in auto)
  from blk ih i show ?case
    by (simp add: seg segment_block_def [symmetric] upt_conv_Cons [of i])
qed

lemma transcript_segments_exhausted:
  assumes "todo = drop i segments" "i \<le> m" "m < length segments"
    and "\<forall>j. i \<le> j \<and> j < m \<longrightarrow> snd (segment_block body segments j) = Inr (res j)"
    and "snd (segment_block body segments m) = Inl e"
  shows "transcript_segments body segments i todo acc =
     (concat (map (\<lambda>j. fst (segment_block body segments j)) [i..<Suc m]), Inl e)"
  using assms(1,2,4)
proof (induction todo arbitrary: i acc)
  case Nil
  with assms(3) show ?case by simp
next
  case (Cons segment rest)
  from Cons.prems(1) have i: "i < length segments"
    by (metis drop_all list.distinct(1) not_le)
  with Cons.prems(1) have seg: "segment = segments ! i" and rest: "rest = drop (Suc i) segments"
    by (simp_all add: Cons_nth_drop_Suc [symmetric])
  show ?case
  proof (cases "i = m")
    case True
    obtain ev where blk: "segment_block body segments m = (ev, Inl e)"
      using assms(5) by (cases "segment_block body segments m") auto
    with True show ?thesis
      by (simp add: seg segment_block_def [symmetric])
  next
    case False
    with Cons.prems(2) have lt: "i < m" by simp
    obtain ev where blk: "segment_block body segments i = (ev, Inr (res i))"
      using Cons.prems(3) lt by (cases "segment_block body segments i") auto
    have ih: "transcript_segments body segments (Suc i) rest (acc @ res i) =
       (concat (map (\<lambda>j. fst (segment_block body segments j)) [Suc i..<Suc m]), Inl e)"
      by (rule Cons.IH [OF rest]) (use Cons.prems(3) lt in auto)
    from blk ih lt show ?thesis
      by (simp add: seg segment_block_def [symmetric] upt_conv_Cons [of i])
  qed
qed

lemma transcript_attempts_retry_from:
  assumes "m \<le> k" "k \<le> 2" "\<forall>b. m \<le> b \<and> b < k \<longrightarrow> (\<exists>e. body b = Inl e)"
  shows "transcript_attempts body i [m..<3] =
     (concat (map (\<lambda>b. [TranscriptCall i b, SleepSeconds 1]) [m..<k]) @
        fst (transcript_attempts body i [k..<3]),
      snd (transcript_attempts body i [k..<3]))"
  using assms
proof (induction "k - m" arbitrary: m)
  case 0
  then have m: "m = k" by simp
  then show ?case by simp
next
  case (Suc d)
  then have lt: "m < k" and m3: "m < 3" and m2: "m \<noteq> 2" by auto
  from Suc.prems lt obtain e where e: "body m = Inl e" by auto
  have ih: "transcript_attempts body i [Suc m..<3] =
     (concat (map (\<lambda>b. [TranscriptCall i b, SleepSeconds 1]) [Suc m..<k]) @
        fst (transcript_attempts body i [k..<3]),
      snd (transcript_attempts body i [k..<3]))"
    using Suc.hyps(2) Suc.prems lt by (intro Suc.hyps(1)) auto
  from e m2 ih m3 lt show ?case
    by (simp add: upt_conv_Cons [of m])
qed

lemma transcript_node_loop:
  assumes "state_outline state = Some segments" "state_speaker_profile state = Some sp"
    "state_emotions_config state = Some ec" "state_speed_config state = Some sc"
    "state_language state = Some lang"
  shows "generate_transcript_node transcript_model clean parse state =
     transcript_segments (segment_body transcript_model clean parse sp ec sc)
       segments 0 segments []"
  using assms by (simp add: generate_transcript_node_def)

lemma validated_parser_rejects:
  assumes "parse raw = Inr ds" "d \<in> set ds" "\<not> valid_dialogue names emos spds d"
  shows "validated_transcript_parser parse names emos spds raw = Inl ''validation error''"
  using assms by (auto simp: validated_transcript_parser_def list_all_iff)

lemma all_less_3: "(\<forall>a<3::nat. P a) \<longleftrightarrow> P 0 \<and> P 1 \<and> P 2"
  by (auto simp: less_Suc_eq numeral_eq_Suc)

text \<open>
  C4.  The outline node and, for each segment, the transcript node make at most 3 attempts
  with a sleep of one second after each failed attempt but the last.  Three failures raise
  the node's error; a first success at attempt \<open>k\<close> (below 3) ends the loop with its
  result.  The transcript node runs the segments in order, each with its own loop: if every
  segment succeeds, the transcript is the results of the segments in segment order and the
  calls are the loops of the segments one after the other; if segment \<open>m\<close> is the first to
  fail three times, the node raises after the loops of the segments up to \<open>m\<close>, with no
  further call for an earlier segment.
\<close>

theorem retry_policy:
  fixes outline_model :: "nat \<Rightarrow> string + 'r"
    and transcript_model :: "nat \<Rightarrow> nat \<Rightarrow> segment_data \<Rightarrow> string + 'r"
    and clean outline_parser parse sp ec sc segments
  defines "try_outline \<equiv> outline_attempt outline_model clean outline_parser"
    and "body \<equiv> segment_body transcript_model clean parse sp ec sc"
  defines "block \<equiv> segment_block body segments"
  shows
    "((\<forall>a<3. \<exists>e. try_outline a = Inl e) \<longrightarrow>
        (\<exists>e. try_outline 2 = Inl e \<and>
           generate_outline_node outline_model clean outline_parser =
             (retry_events OutlineCall 2, Inl (OutlineRuntimeError e)))) \<and>
     (\<forall>k r. k < 3 \<and> try_outline k = Inr r \<and> (\<forall>a<k. \<exists>e. try_outline a = Inl e) \<longrightarrow>
        generate_outline_node outline_model clean outline_parser =
          (retry_events OutlineCall k, Inr r)) \<and>
     (\<forall>j data.
        ((\<forall>a<3. \<exists>e. body j data a = Inl e) \<longrightarrow>
           transcript_attempts (body j data) j [0..<3] =
             (retry_events (TranscriptCall j) 2, Inl TranscriptRuntimeError)) \<and>
        (\<forall>k r. k < 3 \<and> body j data k = Inr r \<and> (\<forall>a<k. \<exists>e. body j data a = Inl e) \<longrightarrow>
           transcript_attempts (body j data) j [0..<3] =
             (retry_events (TranscriptCall j) k, Inr r))) \<and>
     (state_outline state = Some segments \<and> state_speaker_profile state = Some sp \<and>
      state_emotions_config state = Some ec \<and> state_speed_config state = Some sc \<and>
      state_language state \<noteq> None \<longrightarrow>
        (\<forall>res. (\<forall>j<length segments. snd (block j) = Inr (res j)) \<longrightarrow>
           generate_transcript_node transcript_model clean parse state =
             (concat (map (\<lambda>j. fst (block j)) [0..<length segments]),
              Inr (concat (map res [0..<length segments])))) \<and>
        (\<forall>res m e. m < length segments \<and> (\<forall>j<m. snd (block j) = Inr (res j)) \<and>
             snd (block m) = Inl e \<longrightarrow>
           generate_transcript_node transcript_model clean parse state =
             (concat (map (\<lambda>j. fst (block j)) [0..<Suc m]), Inl e)))"
proof (intro conjI impI allI)
  assume "\<forall>a<3. \<exists>e. try_outline a = Inl e"
  then obtain e where e: "try_outline 2 = Inl e" and all: "\<forall>a. 0 \<le> a \<and> a < 3 \<longrightarrow> (\<exists>e. try_outline a = Inl e)"
    by (auto simp: all_less_3)
  from outline_attempts_exhausted_from [of 0 try_outline e] all e
  show "\<exists>e. try_outline 2 = Inl e \<and>
           generate_outline_node outline_model clean outline_parser =
             (retry_events OutlineCall 2, Inl (OutlineRuntimeError e))"
    by (simp add: generate_outline_node_def try_outline_def retry_events_def)
next
  fix k r
  assume "k < 3 \<and> try_outline k = Inr r \<and> (\<forall>a<k. \<exists>e. try_outline a = Inl e)"
  with outline_attempts_success_from [of 0 k try_outline r]
  show "generate_outline_node outline_model clean outline_parser =
          (retry_events OutlineCall k, Inr r)"
    by (simp add: generate_outline_node_def try_outline_def retry_events_def)
next
  fix j data
  assume "\<forall>a<3. \<exists>e. body j data a = Inl e"
  with transcript_attempts_exhausted_from [of 0 "body j data" j]
  show "transcript_attempts (body j data) j [0..<3] =
             (retry_events (TranscriptCall j) 2, Inl TranscriptRuntimeError)"
    by (simp add: retry_events_def)
next
  fix j data k r
  assume "k < 3 \<and> body j data k = Inr r \<and> (\<forall>a<k. \<exists>e. body j data a = Inl e)"
  with transcript_attempts_success_from [of 0 k "body j data" r j]
  show "transcript_attempts (body j data) j [0..<3] =
             (retry_events (TranscriptCall j) k, Inr r)"
    by (simp add: retry_events_def)
next
  fix res
  assume st: "state_outline state = Some segments \<and> state_speaker_profile state = Some sp \<and>
      state_emotions_config state = Some ec \<and> state_speed_config state = Some sc \<and>
      state_language state \<noteq> None"
    and ok: "\<forall>j<length segments. snd (block j) = Inr (res j)"
  from st obtain lang where "state_language state = Some lang" by auto
  with st have node: "generate_transcript_node transcript_model clean parse state =
      transcript_segments body segments 0 segments []"
    unfolding body_def by (intro transcript_node_loop) simp_all
  from transcript_segments_finished [of segments 0 segments body res "[]"] ok
  show "generate_transcript_node transcript_model clean parse state =
             (concat (map (\<lambda>j. fst (block j)) [0..<length segments]),
              Inr (concat (map res [0..<length segments])))"
    by (simp add: node block_def)
next
  fix res m e
  assume st: "state_outline state = Some segments \<and> state_speaker_profile state = Some sp \<and>
      state_emotions_config state = Some ec \<and> state_speed_config state = Some sc \<and>
      state_language state \<noteq> None"
    and bad: "m < length segments \<and> (\<forall>j<m. snd (block j) = Inr (res j)) \<and>
             snd (block m) = Inl e"
  from st obtain lang where "state_language state = Some lang" by auto
  with st have node: "generate_transcript_node transcript_model clean parse state =
      transcript_segments body segments 0 segments []"
    unfolding body_def by (intro transcript_node_loop) simp_all
  from transcript_segments_exhausted [of segments 0 segments m body res e "[]"] bad
  show "generate_transcript_node transcript_model clean parse state =
             (concat (map (\<lambda>j. fst (block j)) [0..<Suc m]), Inl e)"
    by (simp add: node block_def del: upt_Suc)
qed

lemma all_less_2: "(\<forall>a<2::nat. P a) \<longleftrightarrow> P 0 \<and> P 1"
  by (auto simp: less_Suc_eq numeral_eq_Suc)

lemma vocabulary:
  "valid_dialogue (set (get_speaker_names two_voices)) (dom (emotions emotions_table))
     (dom (speeds load_speed_config)) happy_line"
  "valid_dialogue (set (get_speaker_names two_voices)) (dom (emotions emotions_table))
     (dom (speeds load_speed_config)) plain_line"
  "\<not> valid_dialogue (set (get_speaker_names two_voices)) (dom (emotions emotions_table))
     (dom (speeds load_speed_config)) stranger_line"
  by (simp_all add: valid_dialogue_def get_speaker_names_def two_voices_def emotions_table_def
      happy_line_def plain_line_def stranger_line_def)

lemma scripted_bodies:
  "segment_body scripted_model (\<lambda>r. r) scripted_parse two_voices emotions_table
     load_speed_config 0 data 0 = Inl ''validation error''"
  "segment_body scripted_model (\<lambda>r. r) scripted_parse two_voices emotions_table
     load_speed_config 0 data (Suc 0) = Inr [happy_line]"
  "segment_body scripted_model (\<lambda>r. r) scripted_parse two_voices emotions_table
     load_speed_config (Suc 0) data 0 = Inr [plain_line]"
  "segment_body stubborn_model (\<lambda>r. r) scripted_parse two_voices emotions_table
     load_speed_config 0 data 0 = Inr [happy_line]"
  "segment_body stubborn_model (\<lambda>r. r) scripted_parse two_voices emotions_table
     load_speed_config (Suc 0) data a = Inl ''validation error''"
  by (simp_all add: segment_body_def transcript_attempt_def scripted_model_def stubborn_model_def
      scripted_parse_def validated_transcript_parser_def vocabulary)

lemma scripted_blocks:
  "segment_block (segment_body scripted_model (\<lambda>r. r) scripted_parse two_voices emotions_table
       load_speed_config) two_segments 0 =
     ([TranscriptCall 0 0, SleepSeconds 1, TranscriptCall 0 1], Inr [happy_line])"
  "segment_block (segment_body scripted_model (\<lambda>r. r) scripted_parse two_voices emotions_table
       load_speed_config) two_segments (Suc 0) =
     ([TranscriptCall 1 0], Inr [plain_line])"
  "segment_block (segment_body stubborn_model (\<lambda>r. r) scripted_parse two_voices emotions_table
       load_speed_config) two_segments 0 =
     ([TranscriptCall 0 0], Inr [happy_line])"
  "segment_block (segment_body stubborn_model (\<lambda>r. r) scripted_parse two_voices emotions_table
       load_speed_config) two_segments (Suc 0) =
     ([TranscriptCall 1 0, SleepSeconds 1, TranscriptCall 1 1, SleepSeconds 1,
       TranscriptCall 1 2], Inl TranscriptRuntimeError)"
  by (simp_all add: segment_block_def upt_rec scripted_bodies)

lemma outlined_state_fields:
  "state_outline outlined_state = Some two_segments"
  "state_speaker_profile outlined_state = Some two_voices"
  "state_emotions_config outlined_state = Some emotions_table"
  "state_speed_config outlined_state = Some load_speed_config"
  "state_language outlined_state \<noteq> None"
  "length two_segments = 2"
  by (simp_all add: outlined_state_def state_of_def two_segments_def)

theorem retry_policy_witness:
  "generate_outline_node dead_outline_model (\<lambda>r. r) scripted_outline_parser =
     ([OutlineCall 0, SleepSeconds 1, OutlineCall 1, SleepSeconds 1, OutlineCall 2],
      Inl (OutlineRuntimeError ''timeout'')) \<and>
   generate_outline_node slow_outline_model (\<lambda>r. r) scripted_outline_parser =
     ([OutlineCall 0, SleepSeconds 1, OutlineCall 1, SleepSeconds 1, OutlineCall 2],
      Inr two_segments) \<and>
   generate_transcript_node scripted_model (\<lambda>r. r) scripted_parse outlined_state =
     ([TranscriptCall 0 0, SleepSeconds 1, TranscriptCall 0 1, TranscriptCall 1 0],
      Inr [happy_line, plain_line]) \<and>
   generate_transcript_node stubborn_model (\<lambda>r. r) scripted_parse outlined_state =
     ([TranscriptCall 0 0, TranscriptCall 1 0, SleepSeconds 1, TranscriptCall 1 1,
       SleepSeconds 1, TranscriptCall 1 2],
      Inl TranscriptRuntimeError)"
proof -
  have ev: "retry_events OutlineCall 2 =
      [OutlineCall 0, SleepSeconds 1, OutlineCall 1, SleepSeconds 1, OutlineCall 2]"
    by (simp add: retry_events_def upt_rec)
  have dead: "\<forall>a<3. \<exists>e. outline_attempt dead_outline_model (\<lambda>r. r) scripted_outline_parser a = Inl e"
    and dead2: "outline_attempt dead_outline_model (\<lambda>r. r) scripted_outline_parser 2 = Inl ''timeout''"
    by (simp_all add: outline_attempt_def dead_outline_model_def)
  from retry_policy [where outline_model = dead_outline_model and clean = "\<lambda>r. r"
        and outline_parser = scripted_outline_parser,
      THEN conjunct1, THEN mp, OF dead] dead2
  have a: "generate_outline_node dead_outline_model (\<lambda>r. r) scripted_outline_parser =
     ([OutlineCall 0, SleepSeconds 1, OutlineCall 1, SleepSeconds 1, OutlineCall 2],
      Inl (OutlineRuntimeError ''timeout''))"
    by (auto simp: ev)
  have slow: "2 < (3::nat) \<and>
      outline_attempt slow_outline_model (\<lambda>r. r) scripted_outline_parser 2 = Inr two_segments \<and>
      (\<forall>a<2. \<exists>e. outline_attempt slow_outline_model (\<lambda>r. r) scripted_outline_parser a = Inl e)"
    by (simp add: outline_attempt_def slow_outline_model_def scripted_outline_parser_def)
  from retry_policy [where outline_model = slow_outline_model and clean = "\<lambda>r. r"
        and outline_parser = scripted_outline_parser,
      THEN conjunct2, THEN conjunct1, rule_format, OF slow]
  have b: "generate_outline_node slow_outline_model (\<lambda>r. r) scripted_outline_parser =
     ([OutlineCall 0, SleepSeconds 1, OutlineCall 1, SleepSeconds 1, OutlineCall 2],
      Inr two_segments)"
    by (simp add: ev)
  have st: "state_outline outlined_state = Some two_segments \<and>
      state_speaker_profile outlined_state = Some two_voices \<and>
      state_emotions_config outlined_state = Some emotions_table \<and>
      state_speed_config outlined_state = Some load_speed_config \<and>
      state_language outlined_state \<noteq> None"
    by (simp add: outlined_state_fields)
  have ok: "\<forall>j<length two_segments.
      snd (segment_block (segment_body scripted_model (\<lambda>r. r) scripted_parse two_voices
        emotions_table load_speed_config) two_segments j) =
      Inr ((\<lambda>j. if j = 0 then [happy_line] else [plain_line]) j)"
    by (simp add: outlined_state_fields all_less_2 scripted_blocks)
  from retry_policy [where state = outlined_state and segments = two_segments
        and sp = two_voices and ec = emotions_table and sc = load_speed_config
        and clean = "\<lambda>r. r" and parse = scripted_parse and transcript_model = scripted_model,
      THEN conjunct2, THEN conjunct2, THEN conjunct2, THEN mp, OF st,
      THEN conjunct1, THEN spec, THEN mp, OF ok]
  have c: "generate_transcript_node scripted_model (\<lambda>r. r) scripted_parse outlined_state =
     ([TranscriptCall 0 0, SleepSeconds 1, TranscriptCall 0 1, TranscriptCall 1 0],
      Inr [happy_line, plain_line])"
    by (simp add: outlined_state_fields upt_rec scripted_blocks)
  have bad: "Suc 0 < length two_segments \<and>
      (\<forall>j<Suc 0. snd (segment_block (segment_body stubborn_model (\<lambda>r. r) scripted_parse two_voices
        emotions_table load_speed_config) two_segments j) = Inr ((\<lambda>j. [happy_line]) j)) \<and>
      snd (segment_block (segment_body stubborn_model (\<lambda>r. r) scripted_parse two_voices
        emotions_table load_speed_config) two_segments (Suc 0)) = Inl TranscriptRuntimeError"
    by (simp add: outlined_state_fields scripted_blocks)
  from retry_policy [where state = outlined_state and segments = two_segments
        and sp = two_voices and ec = emotions_table and sc = load_speed_config
        and clean = "\<lambda>r. r" and parse = scripted_parse and transcript_model = stubborn_model,
      THEN conjunct2, THEN conjunct2, THEN conjunct2, THEN mp, OF st,
      THEN conjunct2, THEN spec, THEN spec, THEN spec, THEN mp, OF bad]
  have d: "generate_transcript_node stubborn_model (\<lambda>r. r) scripted_parse outlined_state =
     ([TranscriptCall 0 0, TranscriptCall 1 0, SleepSeconds 1, TranscriptCall 1 1,
       SleepSeconds 1, TranscriptCall 1 2],
      Inl TranscriptRuntimeError)"
    by (simp add: upt_rec scripted_blocks)
  from a b c d show ?thesis by simp
qed

text \<open>
  C8.  If attempt \<open>a\<close> for a segment returns text whose parsed lines include one with a
  speaker, emotion or speed outside the vocabularies, the attempt fails as a whole.  When
  the earlier attempts have failed as well, the loop then sleeps and goes on with attempt
  \<open>a + 1\<close> if \<open>a\<close> is below 2, and what is appended for the segment is decided by the later
  attempts alone; for \<open>a = 2\<close> the node raises.  No line of the rejected output is
  appended.
\<close>

theorem validation_rejects_whole_output:
  fixes transcript_model :: "nat \<Rightarrow> nat \<Rightarrow> segment_data \<Rightarrow> string + 'r"
    and clean parse sp ec sc j data
  defines "body \<equiv> segment_body transcript_model clean parse sp ec sc j data"
  shows
    "transcript_model j a data = Inr raw \<and> parse (clean raw) = Inr ds \<and> d \<in> set ds \<and>
     \<not> valid_dialogue (set (get_speaker_names sp)) (dom (emotions ec)) (dom (speeds sc)) d \<and>
     (\<forall>b<a. \<exists>e. body b = Inl e) \<longrightarrow>
       (\<exists>e. body a = Inl e) \<and>
       (a < 2 \<longrightarrow>
          transcript_attempts body j [0..<3] =
            (concat (map (\<lambda>b. [TranscriptCall j b, SleepSeconds 1]) [0..<Suc a]) @
               fst (transcript_attempts body j [Suc a..<3]),
             snd (transcript_attempts body j [Suc a..<3]))) \<and>
       (a = 2 \<longrightarrow>
          transcript_attempts body j [0..<3] =
            (retry_events (TranscriptCall j) 2, Inl TranscriptRuntimeError))"
proof (intro impI, elim conjE)
  assume raw: "transcript_model j a data = Inr raw" and ds: "parse (clean raw) = Inr ds"
    and d: "d \<in> set ds"
    "\<not> valid_dialogue (set (get_speaker_names sp)) (dom (emotions ec)) (dom (speeds sc)) d"
    and before: "\<forall>b<a. \<exists>e. body b = Inl e"
  have rej: "body a = Inl ''validation error''"
    using raw validated_parser_rejects [of parse "clean raw" ds d, OF ds d]
    by (simp add: body_def segment_body_def transcript_attempt_def)
  from rej before have upto: "\<forall>b. 0 \<le> b \<and> b < Suc a \<longrightarrow> (\<exists>e. body b = Inl e)"
    by (auto simp: less_Suc_eq)
  have retry: "transcript_attempts body j [0..<3] =
            (concat (map (\<lambda>b. [TranscriptCall j b, SleepSeconds 1]) [0..<Suc a]) @
               fst (transcript_attempts body j [Suc a..<3]),
             snd (transcript_attempts body j [Suc a..<3]))" if "a < 2"
    using transcript_attempts_retry_from [of 0 "Suc a" body j] upto that by simp
  have fatal: "transcript_attempts body j [0..<3] =
            (retry_events (TranscriptCall j) 2, Inl TranscriptRuntimeError)" if "a = 2"
    using transcript_attempts_exhausted_from [of 0 body j] upto that
    by (simp add: retry_events_def)
  from rej retry fatal
  show "(\<exists>e. body a = Inl e) \<and>
       (a < 2 \<longrightarrow>
          transcript_attempts body j [0..<3] =
            (concat (map (\<lambda>b. [TranscriptCall j b, SleepSeconds 1]) [0..<Suc a]) @
               fst (transcript_attempts body j [Suc a..<3]),
             snd (transcript_attempts body j [Suc a..<3]))) \<and>
       (a = 2 \<longrightarrow>
          transcript_attempts body j [0..<3] =
            (retry_events (TranscriptCall j) 2, Inl TranscriptRuntimeError))"
    by blast
qed

theorem validation_rejects_whole_output_witness:
  "scripted_parse ''stranger'' = Inr [happy_line, stranger_line] \<and>
   segment_body scripted_model (\<lambda>r. r) scripted_parse two_voices emotions_table load_speed_config
     0 (segment_data_of two_segments 0 (two_segments ! 0)) 0 = Inl ''validation error'' \<and>
   transcript_attempts
     (segment_body scripted_model (\<lambda>r. r) scripted_parse two_voices emotions_table
        load_speed_config 0 (segment_data_of two_segments 0 (two_segments ! 0))) 0 [0..<3] =
     ([TranscriptCall 0 0, SleepSeconds 1, TranscriptCall 0 1], Inr [happy_line])"
proof -
  let ?data = "segment_data_of two_segments 0 (two_segments ! 0)"
  let ?body = "segment_body scripted_model (\<lambda>r. r) scripted_parse two_voices emotions_table
        load_speed_config 0 ?data"
  have p: "scripted_parse ''stranger'' = Inr [happy_line, stranger_line]"
    by (simp add: scripted_parse_def)
  have h: "scripted_model 0 0 ?data = Inr ''stranger'' \<and>
      scripted_parse ((\<lambda>r. r) ''stranger'') = Inr [happy_line, stranger_line] \<and>
      stranger_line \<in> set [happy_line, stranger_line] \<and>
      \<not> valid_dialogue (set (get_speaker_names two_voices)) (dom (emotions emotions_table))
          (dom (speeds load_speed_config)) stranger_line \<and>
      (\<forall>b<0. \<exists>e. ?body b = Inl e)"
    by (simp add: scripted_model_def p vocabulary)
  note t = validation_rejects_whole_output [where transcript_model = scripted_model
      and clean = "\<lambda>r. r" and parse = scripted_parse and sp = two_voices
      and ec = emotions_table and sc = load_speed_config and j = 0 and data = ?data
      and a = 0 and raw = "''stranger''" and ds = "[happy_line, stranger_line]"
      and d = stranger_line, THEN mp, OF h]
  have rest: "transcript_attempts ?body 0 [Suc 0..<3] = ([TranscriptCall 0 1], Inr [happy_line])"
    by (simp add: upt_rec scripted_bodies)
  from t [THEN conjunct2, THEN conjunct1] rest
  have "transcript_attempts ?body 0 [0..<3] =
     ([TranscriptCall 0 0, SleepSeconds 1, TranscriptCall 0 1], Inr [happy_line])"
    by simp
  with p scripted_bodies(1) [of ?data] show ?thesis by simp
qed

end
